theory Spec2Isabelle
  imports Main "HOL-Library.Multiset"
begin

section \<open>The API description as the generator reads it\<close>

text \<open>
  The generator (\<^verbatim>\<open>mcp-rest-server-gen\<close>) reads a parsed OpenAPI document through the
  types of the \<^verbatim>\<open>kin-openapi\<close> library. Only the fields the generator touches are kept.
  A Go pointer that may be \<^verbatim>\<open>nil\<close> is an \<open>option\<close>; a Go string is a \<open>string\<close>
  (a list of bytes).
\<close>

record RequestBody =
  Required :: bool

record RequestBodyRef =
  Ref :: string
  Value :: "RequestBody option"

record Operation =
  OperationID :: string
  Summary :: string
  Description :: string
  RequestBody :: "RequestBodyRef option"

text \<open>
  A path item has one operation slot per HTTP method. The library's struct has nine of
  them; the generator reads seven.
\<close>

record PathItem =
  Connect :: "Operation option"
  Delete :: "Operation option"
  Get :: "Operation option"
  Head :: "Operation option"
  Options :: "Operation option"
  Patch :: "Operation option"
  Post :: "Operation option"
  Put :: "Operation option"
  Trace :: "Operation option"

text \<open>
  \<^verbatim>\<open>for path := range doc.Paths.Map() { pathItem := doc.Paths.Find(path) ... }\<close>:
  the document's paths are the keys of a Go map, visited in an order the runtime chooses.
  The model receives them as the list of keys in the order of one visit, each with what
  \<^verbatim>\<open>Find\<close> returns for it (\<open>None\<close> for \<^verbatim>\<open>nil\<close>).
\<close>

type_synonym Paths = "(string \<times> PathItem option) list"

section \<open>The operation table\<close>

record OperationInfo =
  ID :: string
  Summary :: string
  Description :: string
  ParameterType :: string
  HasRequestBody :: bool

text \<open>\<^verbatim>\<open>map[string]OperationInfo\<close>\<close>

type_synonym OperationTable = "string \<rightharpoonup> OperationInfo"

text \<open>
  The record \<^verbatim>\<open>processOperation\<close> stores for an operation that has an identifier
  (lines 290 to 314 of the generator). \<^verbatim>\<open>fmt.Sprintf("%sParams", id)\<close> is the
  identifier followed by \<^verbatim>\<open>Params\<close>, and \<^verbatim>\<open>fmt.Sprintf("%s %s", method, path)\<close> is
  the two strings with one space between them.
\<close>

definition hasRequestBody :: "Operation \<Rightarrow> bool" where
  "hasRequestBody operation =
     (case RequestBody operation of
        None \<Rightarrow> False
      | Some r \<Rightarrow> Value r \<noteq> None)"

definition operationInfo :: "string \<Rightarrow> string \<Rightarrow> Operation \<Rightarrow> OperationInfo" where
  "operationInfo path method operation =
     (let paramType =
            (if hasRequestBody operation
             then OperationID operation @ ''JSONRequestBody''
             else OperationID operation @ ''Params'');
          summary =
            (if Operation.Summary operation = ''''
             then method @ '' '' @ path
             else Operation.Summary operation);
          description =
            (if Operation.Description operation = ''''
             then summary
             else Operation.Description operation)
      in \<lparr>ID = OperationID operation,
          Summary = summary,
          Description = description,
          ParameterType = paramType,
          HasRequestBody = hasRequestBody operation\<rparr>)"

definition processOperation ::
  "string \<Rightarrow> string \<Rightarrow> Operation option \<Rightarrow> OperationTable \<Rightarrow> OperationTable" where
  "processOperation path method operation operations =
     (case operation of
        None \<Rightarrow> operations
      | Some opn \<Rightarrow>
          if OperationID opn = '''' then operations
          else operations(OperationID opn \<mapsto> operationInfo path method opn))"

text \<open>The seven calls of the loop body, in the order of the source.\<close>

definition processPathItem :: "string \<Rightarrow> PathItem \<Rightarrow> OperationTable \<Rightarrow> OperationTable" where
  "processPathItem path pathItem operations =
     (let ops1 = processOperation path ''GET'' (Get pathItem) operations;
          ops2 = processOperation path ''POST'' (Post pathItem) ops1;
          ops3 = processOperation path ''PUT'' (Put pathItem) ops2;
          ops4 = processOperation path ''DELETE'' (Delete pathItem) ops3;
          ops5 = processOperation path ''PATCH'' (Patch pathItem) ops4;
          ops6 = processOperation path ''HEAD'' (Head pathItem) ops5
      in processOperation path ''OPTIONS'' (Options pathItem) ops6)"

fun extractLoop :: "Paths \<Rightarrow> OperationTable \<Rightarrow> OperationTable" where
  "extractLoop [] operations = operations"
| "extractLoop ((path, None) # rest) operations = extractLoop rest operations"
| "extractLoop ((path, Some pathItem) # rest) operations =
     extractLoop rest (processPathItem path pathItem operations)"

definition extractOperations :: "Paths \<Rightarrow> OperationTable" where
  "extractOperations paths = extractLoop paths Map.empty"

section \<open>The program representation\<close>

text \<open>
  The generator builds the output with the \<^verbatim>\<open>jennifer\<close> library: every \<^verbatim>\<open>jen.X(...)\<close>
  starts a statement, a chained \<^verbatim>\<open>.Y(...)\<close> appends one more item to it, and the items that
  take arguments (\<^verbatim>\<open>Call\<close>, \<^verbatim>\<open>Block\<close>, \<^verbatim>\<open>Params\<close>, ...) hold one statement per argument.
  So a statement is a list of items, and an item is one constructor of \<open>Code\<close>, named as
  the library's function is. \<^verbatim>\<open>Lit\<close> is applied to strings and to the integer 200, and
  \<^verbatim>\<open>Tag\<close> to a map literal, kept as the list of its entries.
\<close>

datatype Code =
    jen_Var
  | jen_Err
  | jen_Nil
  | jen_String
  | jen_Error
  | jen_Chan
  | jen_Func
  | jen_Id string
  | jen_Op string
  | jen_Dot string
  | jen_Qual string string
  | jen_Lit string
  | jen_LitInt int
  | jen_Tag "(string \<times> string) list"
  | jen_Struct "Code list list"
  | jen_Call "Code list list"
  | jen_Make "Code list list"
  | jen_List "Code list list"
  | jen_If "Code list list"
  | jen_Block "Code list list"
  | jen_Panic "Code list list"
  | jen_Params "Code list list"
  | jen_Return "Code list list"

type_synonym Statement = "Code list"

text \<open>
  \<^verbatim>\<open>jen.File\<close>: the package name given to \<^verbatim>\<open>NewFile\<close>, the map filled by
  \<^verbatim>\<open>ImportName\<close> (import path to package name) and the statements added to the file.
\<close>

record File =
  PackageName :: string
  ImportNames :: "string \<rightharpoonup> string"
  Decls :: "Statement list"

section \<open>The generation configuration\<close>

record CLI =
  Spec :: string
  Output :: string
  Package :: string
  ClientPackage :: string
  ClientImport :: string
  ServerURL :: string
  UsernameEnv :: string
  PasswordEnv :: string

section \<open>The synthesizer\<close>

text \<open>The first statements of the generated \<^verbatim>\<open>main\<close> (lines 185 to 221).\<close>

definition mainBodyStart :: "CLI \<Rightarrow> Statement list" where
  "mainBodyStart cli =
   [ [jen_Var, jen_Id ''cli'', jen_Op ''='',
      jen_Struct
        [ [jen_Id ''Host'', jen_String,
           jen_Tag [(''help'', ''API server host''), (''default'', ServerURL cli)]],
          [jen_Id ''Username'', jen_String,
           jen_Tag [(''help'', ''API username''), (''env'', UsernameEnv cli)]],
          [jen_Id ''Password'', jen_String,
           jen_Tag [(''help'', ''API password''), (''env'', PasswordEnv cli)]] ],
      jen_Op ''{}''],
     [jen_Qual ''github.com/alecthomas/kong'' ''Parse'',
      jen_Call [[jen_Op ''&'', jen_Id ''cli'']]],
     [jen_Id ''done'', jen_Op '':='', jen_Make [[jen_Chan, jen_Struct []]]],
     [jen_List [[jen_Id ''basicAuth''], [jen_Err]], jen_Op '':='',
      jen_Qual ''github.com/oapi-codegen/oapi-codegen/v2/pkg/securityprovider''
        ''NewSecurityProviderBasicAuth'',
      jen_Call [[jen_Id ''cli'', jen_Dot ''Username''], [jen_Id ''cli'', jen_Dot ''Password'']]],
     [jen_If [[jen_Err, jen_Op ''!='', jen_Nil]],
      jen_Block [[jen_Qual ''log'' ''Fatal'', jen_Call [[jen_Err]]]]],
     [jen_List [[jen_Id ''restClient''], [jen_Err]], jen_Op '':='',
      jen_Qual (ClientImport cli) ''NewClientWithResponses'',
      jen_Call
        [ [jen_Id ''cli'', jen_Dot ''Host''],
          [jen_Qual (ClientImport cli) ''WithRequestEditorFn'',
           jen_Call [[jen_Id ''basicAuth'', jen_Dot ''Intercept'']]] ]],
     [jen_If [[jen_Err, jen_Op ''!='', jen_Nil]],
      jen_Block [[jen_Panic [[jen_Err]]]]],
     [jen_Id ''server'', jen_Op '':='',
      jen_Qual ''github.com/metoro-io/mcp-golang'' ''NewServer'',
      jen_Call
        [ [jen_Qual ''github.com/metoro-io/mcp-golang/transport/stdio''
             ''NewStdioServerTransport'',
           jen_Call []] ]] ]"

text \<open>
  The argument of the REST call (lines 225 to 228): the handler's parameter itself, or
  its address when the operation has no request body.
\<close>

definition paramExpr :: "OperationInfo \<Rightarrow> Statement" where
  "paramExpr op =
     (if \<not> HasRequestBody op then [jen_Op ''&'', jen_Id ''arguments'']
      else [jen_Id ''arguments''])"

text \<open>The statements of a handler's body (lines 240 to 257).\<close>

definition handlerBody :: "OperationInfo \<Rightarrow> Statement list" where
  "handlerBody op =
   [ [jen_List [[jen_Id ''resp''], [jen_Err]], jen_Op '':='',
      jen_Id ''restClient'', jen_Dot (ID op @ ''WithResponse''),
      jen_Call [[jen_Qual ''context'' ''TODO'', jen_Call []], paramExpr op]],
     [jen_If [[jen_Err, jen_Op ''!='', jen_Nil]],
      jen_Block
        [ [jen_Return
             [ [jen_Nil],
               [jen_Qual ''fmt'' ''Errorf'',
                jen_Call [[jen_Lit (''error calling '' @ ID op @ '': %v'')], [jen_Err]]] ]] ]],
     [jen_If [[jen_Id ''resp'', jen_Dot ''StatusCode'', jen_Call [], jen_Op ''!='',
               jen_LitInt 200]],
      jen_Block
        [ [jen_Return
             [ [jen_Nil],
               [jen_Qual ''fmt'' ''Errorf'',
                jen_Call [[jen_Lit (''error on '' @ ID op @ '': %s'')],
                          [jen_Id ''resp'', jen_Dot ''Status'', jen_Call []]]] ]] ]],
     [jen_Return
        [ [jen_Qual ''github.com/metoro-io/mcp-golang'' ''NewToolResponse'',
           jen_Call
             [ [jen_Qual ''github.com/metoro-io/mcp-golang'' ''NewTextContent'',
                jen_Call [[jen_String, jen_Call [[jen_Id ''resp'', jen_Dot ''Body'']]]]] ]],
          [jen_Nil] ]] ]"

text \<open>
  The two statements appended for one operation (lines 230 to 263): the call of
  \<^verbatim>\<open>server.RegisterTool\<close> and the check of its result.
\<close>

definition registerTool :: "CLI \<Rightarrow> OperationInfo \<Rightarrow> Statement list" where
  "registerTool cli op =
   [ [jen_Err, jen_Op ''='', jen_Id ''server'', jen_Dot ''RegisterTool'',
      jen_Call
        [ [jen_Lit (ID op)],
          [jen_Lit (Description op)],
          [jen_Func,
           jen_Params [[jen_Id ''arguments'', jen_Qual (ClientImport cli) (ParameterType op)]],
           jen_Params
             [ [jen_Op ''*'', jen_Qual ''github.com/metoro-io/mcp-golang'' ''ToolResponse''],
               [jen_Error] ],
           jen_Block (handlerBody op)] ]],
     [jen_If [[jen_Err, jen_Op ''!='', jen_Nil]],
      jen_Block [[jen_Panic [[jen_Err]]]]] ]"

text \<open>The last statements of the generated \<^verbatim>\<open>main\<close> (lines 267 to 275).\<close>

definition mainBodyEnd :: "Statement list" where
  "mainBodyEnd =
   [ [jen_Err, jen_Op ''='', jen_Id ''server'', jen_Dot ''Serve'', jen_Call []],
     [jen_If [[jen_Err, jen_Op ''!='', jen_Nil]],
      jen_Block [[jen_Panic [[jen_Err]]]]],
     [jen_Qual ''log/slog'' ''Info'', jen_Call [[jen_Lit ''Server started'']]],
     [jen_Op ''<-'', jen_Id ''done''] ]"

text \<open>
  \<^verbatim>\<open>for _, op := range operations\<close>: Go visits every key of the table once, in an
  order the runtime chooses. The order of one visit is an argument of the model:
  \<open>rangeOrder keys operations\<close> says that \<open>keys\<close> is such an order, and
  \<open>rangeValues\<close> lists the values met in it (a key that is not in the table, which
  no visit meets, is passed over).
\<close>

definition rangeOrder :: "string list \<Rightarrow> OperationTable \<Rightarrow> bool" where
  "rangeOrder keys operations = (distinct keys \<and> set keys = dom operations)"

fun rangeValues :: "OperationTable \<Rightarrow> string list \<Rightarrow> OperationInfo list" where
  "rangeValues operations [] = []"
| "rangeValues operations (k # keys) =
     (case operations k of
        None \<Rightarrow> rangeValues operations keys
      | Some op \<Rightarrow> op # rangeValues operations keys)"

definition toolRegistrations :: "CLI \<Rightarrow> OperationInfo list \<Rightarrow> Statement list" where
  "toolRegistrations cli ops = concat (map (registerTool cli) ops)"

definition mainBody :: "CLI \<Rightarrow> OperationInfo list \<Rightarrow> Statement list" where
  "mainBody cli ops = mainBodyStart cli @ toolRegistrations cli ops @ mainBodyEnd"

text \<open>The ten calls of \<^verbatim>\<open>ImportName\<close>, each an assignment into the file's map.\<close>

definition importNames :: "CLI \<Rightarrow> (string \<rightharpoonup> string)" where
  "importNames cli =
     (Map.empty
        (''context'' \<mapsto> ''context'',
         ''fmt'' \<mapsto> ''fmt'',
         ''log'' \<mapsto> ''log'',
         ''log/slog'' \<mapsto> ''slog'',
         ''os'' \<mapsto> ''os'',
         ''github.com/metoro-io/mcp-golang'' \<mapsto> ''mcp_golang'',
         ''github.com/metoro-io/mcp-golang/transport/stdio'' \<mapsto> ''stdio'',
         ''github.com/oapi-codegen/oapi-codegen/v2/pkg/securityprovider'' \<mapsto> ''securityprovider'',
         ''github.com/alecthomas/kong'' \<mapsto> ''kong'',
         ClientImport cli \<mapsto> ClientPackage cli))"

definition synthesize :: "CLI \<Rightarrow> OperationInfo list \<Rightarrow> File" where
  "synthesize cli ops =
     \<lparr>PackageName = Package cli,
      ImportNames = importNames cli,
      Decls = [[jen_Func, jen_Id ''main'', jen_Params [], jen_Block (mainBody cli ops)]]\<rparr>"

section \<open>The run\<close>

text \<open>
  \<^verbatim>\<open>generateMCPServer\<close> returns an error before it has written anything, or ends in
  \<^verbatim>\<open>return f.Save(CLI.Output)\<close>, the only place where a file is written. The outcome
  of the model says which: \<open>Failed\<close> with the error returned, or \<open>Saved\<close> with the
  path and the file handed to \<^verbatim>\<open>Save\<close>, whose result is then the result of the run.
  Loading and validating the description is done by the library; the model takes the
  result of \<^verbatim>\<open>loadOpenAPISpec\<close> as an argument.
\<close>

datatype error =
    LoadError string
  | GenerateError string

datatype outcome =
    Failed error
  | Saved string File

definition generateMCPServer :: "CLI \<Rightarrow> string + Paths \<Rightarrow> string list \<Rightarrow> outcome" where
  "generateMCPServer cli loaded keys =
     (case loaded of
        Inl err \<Rightarrow> Failed (LoadError err)
      | Inr paths \<Rightarrow>
          let operations = extractOperations paths
          in if dom operations = {}
             then Failed (GenerateError ''no valid operations found in the OpenAPI spec'')
             else Saved (Output cli) (synthesize cli (rangeValues operations keys)))"

section \<open>Notions used to state the properties\<close>

subsection \<open>The operation definitions of a description, in the order of processing\<close>

text \<open>
  The seven method slots the loop body passes to \<^verbatim>\<open>processOperation\<close>, with the method
  name it passes along, in the order of the calls.
\<close>

definition methodSlots :: "PathItem \<Rightarrow> (string \<times> Operation option) list" where
  "methodSlots pathItem =
     [(''GET'', Get pathItem), (''POST'', Post pathItem), (''PUT'', Put pathItem),
      (''DELETE'', Delete pathItem), (''PATCH'', Patch pathItem), (''HEAD'', Head pathItem),
      (''OPTIONS'', Options pathItem)]"

text \<open>An operation definition: the path, the method and the operation found in the slot.\<close>

type_synonym OperationDef = "string \<times> string \<times> Operation"

fun present :: "string \<Rightarrow> (string \<times> Operation option) list \<Rightarrow> OperationDef list" where
  "present path [] = []"
| "present path ((method, None) # slots) = present path slots"
| "present path ((method, Some opn) # slots) = (path, method, opn) # present path slots"

fun processed :: "Paths \<Rightarrow> OperationDef list" where
  "processed [] = []"
| "processed ((path, None) # rest) = processed rest"
| "processed ((path, Some pathItem) # rest) =
     present path (methodSlots pathItem) @ processed rest"

definition idOf :: "OperationDef \<Rightarrow> string" where
  "idOf d = (case d of (path, method, opn) \<Rightarrow> OperationID opn)"

definition infoOf :: "OperationDef \<Rightarrow> OperationInfo" where
  "infoOf d = (case d of (path, method, opn) \<Rightarrow> operationInfo path method opn)"

definition store :: "OperationTable \<Rightarrow> OperationDef \<Rightarrow> OperationTable" where
  "store operations d =
     (case d of (path, method, opn) \<Rightarrow> processOperation path method (Some opn) operations)"

text \<open>The definitions of a description that carry the identifier \<open>name\<close>.\<close>

definition definitionsOf :: "string \<Rightarrow> Paths \<Rightarrow> OperationDef list" where
  "definitionsOf name paths = filter (\<lambda>d. idOf d = name) (processed paths)"

text \<open>No identifier is defined twice (definitions without identifier set aside).\<close>

definition uniqueIds :: "Paths \<Rightarrow> bool" where
  "uniqueIds paths = distinct (filter (\<lambda>k. k \<noteq> '''') (map idOf (processed paths)))"

subsection \<open>The invariant of the operation table\<close>

definition entryOk :: "string \<Rightarrow> OperationInfo \<Rightarrow> bool" where
  "entryOk k info =
     (ID info = k \<and> ID info \<noteq> '''' \<and> Summary info \<noteq> '''' \<and> Description info \<noteq> '''' \<and>
      ParameterType info =
        (if HasRequestBody info then ID info @ ''JSONRequestBody'' else ID info @ ''Params''))"

definition tableInv :: "OperationTable \<Rightarrow> bool" where
  "tableInv operations = (\<forall>k info. operations k = Some info \<longrightarrow> entryOk k info)"

subsection \<open>Registration statements in the output\<close>

text \<open>
  A statement \<^verbatim>\<open>err = server.RegisterTool("name", ...)\<close>, the statements of the
  generated \<^verbatim>\<open>main\<close> function, and the number of registrations of a tool name
  among them.
\<close>

definition registersTool :: "string \<Rightarrow> Statement \<Rightarrow> bool" where
  "registersTool name stmt =
     (case stmt of
        [e, eq, srv, d, jen_Call args] \<Rightarrow>
          e = jen_Err \<and> eq = jen_Op ''='' \<and> srv = jen_Id ''server'' \<and>
          d = jen_Dot ''RegisterTool'' \<and>
          (case args of [] \<Rightarrow> False | a # _ \<Rightarrow> a = [jen_Lit name])
      | _ \<Rightarrow> False)"

definition mainStatements :: "File \<Rightarrow> Statement list" where
  "mainStatements f =
     (case Decls f of
        [[fn, nm, ps, jen_Block body]] \<Rightarrow>
          if fn = jen_Func \<and> nm = jen_Id ''main'' \<and> ps = jen_Params [] then body else []
      | _ \<Rightarrow> [])"

definition registrations :: "string \<Rightarrow> File \<Rightarrow> nat" where
  "registrations name f = length (filter (registersTool name) (mainStatements f))"

text \<open>
  The tool name a statement registers, when it is a call of \<^verbatim>\<open>server.RegisterTool\<close>
  with a string literal as first argument, and the names registered in the generated
  \<^verbatim>\<open>main\<close>, in the order of its statements.
\<close>

definition registeredName :: "Statement \<Rightarrow> string option" where
  "registeredName stmt =
     (case stmt of
        [e, eq, srv, d, jen_Call args] \<Rightarrow>
          if e = jen_Err \<and> eq = jen_Op ''='' \<and> srv = jen_Id ''server'' \<and>
             d = jen_Dot ''RegisterTool''
          then (case args of
                  [] \<Rightarrow> None
                | a # _ \<Rightarrow> (case a of [jen_Lit name] \<Rightarrow> Some name | _ \<Rightarrow> None))
          else None
      | _ \<Rightarrow> None)"

definition registeredNames :: "File \<Rightarrow> string list" where
  "registeredNames f = List.map_filter registeredName (mainStatements f)"

text \<open>The run returned its error before the call of \<^verbatim>\<open>Save\<close>.\<close>

definition failedBeforeSave :: "outcome \<Rightarrow> bool" where
  "failedBeforeSave out = (case out of Failed e \<Rightarrow> True | Saved p f \<Rightarrow> False)"

section \<open>The generated handler, executed\<close>

text \<open>
  What the statements of a handler do when the generated program runs them. Only the
  forms the synthesizer emits in a handler are given a meaning; any other statement or
  expression has none (\<open>None\<close>).
\<close>

text \<open>
  Modelled from the spec: the typed REST client, the package the generated program
  imports, is not among the sources. Its contract (section 6): for every operation a
  call \<^verbatim>\<open><id>WithResponse(context, argument)\<close> returning a response and an error,
  where the response exposes an HTTP status code, an HTTP status text and the raw body
  as bytes. A client is a function from the name of the call and the argument passed to
  the error text or the response.
\<close>

record Response =
  StatusCode :: int
  Status :: string
  Body :: string

datatype 'a passed = ByValue 'a | ByReference 'a

type_synonym 'a restClient = "string \<Rightarrow> 'a passed \<Rightarrow> string + Response"

datatype goValue =
    GoNil
  | GoError string
  | GoString string
  | GoInt int
  | GoBytes string
  | GoTextContent string
  | GoToolResponse "goValue list"

text \<open>The variables of a handler: its parameter, and \<^verbatim>\<open>resp\<close> and \<^verbatim>\<open>err\<close>.\<close>

record 'a frame =
  var_arguments :: 'a
  var_resp :: "Response option"
  var_err :: "string option"

text \<open>
  \<^verbatim>\<open>fmt.Sprintf\<close> for the verbs the handlers use: \<^verbatim>\<open>%v\<close> and \<^verbatim>\<open>%s\<close> print an
  error's message or a string, \<^verbatim>\<open>%%\<close> prints a percent sign. Other verbs, missing and
  extra operands are left without meaning.
\<close>

fun formatOperand :: "goValue \<Rightarrow> string option" where
  "formatOperand (GoError e) = Some e"
| "formatOperand (GoString s) = Some s"
| "formatOperand v = None"

fun Sprintf :: "string \<Rightarrow> goValue list \<Rightarrow> string option" where
  "Sprintf [] [] = Some []"
| "Sprintf [] (v # vs) = None"
| "Sprintf (c # cs) vs =
     (if c \<noteq> CHR ''%'' then map_option ((#) c) (Sprintf cs vs)
      else (case cs of
              [] \<Rightarrow> None
            | d # ds \<Rightarrow>
                if d = CHR ''%'' then map_option ((#) d) (Sprintf ds vs)
                else if d = CHR ''v'' \<or> d = CHR ''s'' then
                  (case vs of
                     [] \<Rightarrow> None
                   | v # vs' \<Rightarrow>
                       (case formatOperand v of
                          None \<Rightarrow> None
                        | Some s \<Rightarrow> map_option ((@) s) (Sprintf ds vs')))
                else None))"

definition callFunction :: "string \<Rightarrow> string \<Rightarrow> goValue option list \<Rightarrow> goValue option" where
  "callFunction pkg name args =
     (case those args of
        None \<Rightarrow> None
      | Some vs \<Rightarrow>
          if pkg = ''fmt'' \<and> name = ''Errorf'' then
            (case vs of
               GoString f # operands \<Rightarrow> map_option GoError (Sprintf f operands)
             | _ \<Rightarrow> None)
          else if pkg = ''github.com/metoro-io/mcp-golang'' \<and> name = ''NewTextContent'' then
            (case vs of [GoString s] \<Rightarrow> Some (GoTextContent s) | _ \<Rightarrow> None)
          else if pkg = ''github.com/metoro-io/mcp-golang'' \<and> name = ''NewToolResponse'' then
            Some (GoToolResponse vs)
          else None)"

fun evalExpr :: "'a frame \<Rightarrow> Statement \<Rightarrow> goValue option" where
  "evalExpr fr e =
     (if e = [jen_Nil] then Some GoNil
      else if e = [jen_Err] then
        Some (case var_err fr of None \<Rightarrow> GoNil | Some m \<Rightarrow> GoError m)
      else if e = [jen_Id ''resp'', jen_Dot ''Body''] then
        map_option (\<lambda>r. GoBytes (Body r)) (var_resp fr)
      else if e = [jen_Id ''resp'', jen_Dot ''StatusCode'', jen_Call []] then
        map_option (\<lambda>r. GoInt (StatusCode r)) (var_resp fr)
      else if e = [jen_Id ''resp'', jen_Dot ''Status'', jen_Call []] then
        map_option (\<lambda>r. GoString (Status r)) (var_resp fr)
      else
        (case e of
           [jen_Lit s] \<Rightarrow> Some (GoString s)
         | [jen_LitInt n] \<Rightarrow> Some (GoInt n)
         | [jen_String, jen_Call args] \<Rightarrow>
             (case map (evalExpr fr) args of
                [Some (GoBytes b)] \<Rightarrow> Some (GoString b)
              | _ \<Rightarrow> None)
         | [jen_Qual pkg name, jen_Call args] \<Rightarrow>
             callFunction pkg name (map (evalExpr fr) args)
         | _ \<Rightarrow> None))"


text \<open>
  A condition \<^verbatim>\<open>lhs != rhs\<close>: the items before the operator and those after it are
  the two operands.
\<close>

definition evalNotEqual :: "'a frame \<Rightarrow> Statement \<Rightarrow> bool option" where
  "evalNotEqual fr cond =
     (let lhs = takeWhile (\<lambda>c. c \<noteq> jen_Op ''!='') cond;
          rhs = drop (Suc (length lhs)) cond
      in if length lhs = length cond then None
         else (case (evalExpr fr lhs, evalExpr fr rhs) of
                 (Some a, Some b) \<Rightarrow> Some (a \<noteq> b)
               | _ \<Rightarrow> None))"

text \<open>The argument of the REST call: the handler's parameter, or its address.\<close>

definition evalArgument :: "'a frame \<Rightarrow> Statement \<Rightarrow> 'a passed option" where
  "evalArgument fr arg =
     (if arg = [jen_Id ''arguments''] then Some (ByValue (var_arguments fr))
      else if arg = [jen_Op ''&'', jen_Id ''arguments''] then Some (ByReference (var_arguments fr))
      else None)"

text \<open>\<^verbatim>\<open>resp, err := ...\<close> with the result of the REST call.\<close>

definition assignResult :: "string + Response \<Rightarrow> 'a frame \<Rightarrow> 'a frame" where
  "assignResult result fr =
     (case result of
        Inl e \<Rightarrow> fr\<lparr>var_resp := None, var_err := Some e\<rparr>
      | Inr r \<Rightarrow> fr\<lparr>var_resp := Some r, var_err := None\<rparr>)"

text \<open>
  A statement leaves the variables changed and goes on, or returns the handler's results.
\<close>

datatype 'a flow = Continue "'a frame" | Returned "goValue list"

fun execStmt :: "'a restClient \<Rightarrow> 'a frame \<Rightarrow> Statement \<Rightarrow> 'a flow option"
  and execBlock :: "'a restClient \<Rightarrow> 'a frame \<Rightarrow> Statement list \<Rightarrow> 'a flow option" where
  "execStmt client fr stmt =
     (case stmt of
        [jen_Return results] \<Rightarrow> map_option Returned (those (map (evalExpr fr) results))
      | [jen_If conds, jen_Block body] \<Rightarrow>
          (case conds of
             [cond] \<Rightarrow>
               (case evalNotEqual fr cond of
                  None \<Rightarrow> None
                | Some b \<Rightarrow> if b then execBlock client fr body else Some (Continue fr))
           | _ \<Rightarrow> None)
      | [jen_List targets, jen_Op op, jen_Id callee, jen_Dot name, jen_Call args] \<Rightarrow>
          if targets = [[jen_Id ''resp''], [jen_Err]] \<and> op = '':='' \<and> callee = ''restClient''
          then
            (case args of
               [ctx, arg] \<Rightarrow>
                 if ctx = [jen_Qual ''context'' ''TODO'', jen_Call []] then
                   (case evalArgument fr arg of
                      None \<Rightarrow> None
                    | Some a \<Rightarrow> Some (Continue (assignResult (client name a) fr)))
                 else None
             | _ \<Rightarrow> None)
          else None
      | _ \<Rightarrow> None)"
| "execBlock client fr [] = Some (Continue fr)"
| "execBlock client fr (stmt # rest) =
     (case execStmt client fr stmt of
        None \<Rightarrow> None
      | Some (Returned vs) \<Rightarrow> Some (Returned vs)
      | Some (Continue fr') \<Rightarrow> execBlock client fr' rest)"

text \<open>
  A call of the handler with the argument \<open>a\<close>: its body run from the start, up to a
  \<^verbatim>\<open>return\<close>.
\<close>

definition callHandler :: "'a restClient \<Rightarrow> Statement list \<Rightarrow> 'a \<Rightarrow> goValue list option" where
  "callHandler client body a =
     (case execBlock client \<lparr>var_arguments = a, var_resp = None, var_err = None\<rparr> body of
        Some (Returned vs) \<Rightarrow> Some vs
      | _ \<Rightarrow> None)"

section \<open>Example descriptions\<close>

text \<open>The defaults of the command line, and small descriptions used as concrete inputs.\<close>

definition defaultCLI :: CLI where
  "defaultCLI =
     \<lparr>Spec = ''https://converter.swagger.io/api/convert?url=https://eng-test-us-01-dev.outsystems.app/MCPBackend/rest/Backend/swagger.json'',
      Output = ''./generated/main.go'',
      Package = ''main'',
      ClientPackage = ''api'',
      ClientImport = ''github.com/renato0307/go-mcp-rest/generated/api'',
      ServerURL = ''https://eng-test-us-01-dev.outsystems.app/MCPBackend/rest/Backend'',
      UsernameEnv = ''API_USERNAME'',
      PasswordEnv = ''API_PASSWORD''\<rparr>"

definition noOperations :: PathItem where
  "noOperations =
     \<lparr>Connect = None, Delete = None, Get = None, Head = None, Options = None,
      Patch = None, Post = None, Put = None, Trace = None\<rparr>"

definition listBooks :: Operation where
  "listBooks = \<lparr>OperationID = ''ListBooks'', Summary = '''', Description = '''', RequestBody = None\<rparr>"

definition addBook :: Operation where
  "addBook =
     \<lparr>OperationID = ''AddBook'', Summary = '''', Description = '''',
      RequestBody = Some \<lparr>Ref = '''', Value = Some \<lparr>Required = True\<rparr>\<rparr>\<rparr>"

definition booksItem :: PathItem where
  "booksItem = noOperations\<lparr>Get := Some listBooks, Post := Some addBook\<rparr>"

definition books :: Paths where
  "books = [(''/books'', Some booksItem)]"

definition anonymous :: Operation where
  "anonymous = \<lparr>OperationID = '''', Summary = ''Health check'', Description = '''', RequestBody = None\<rparr>"

definition healthPaths :: Paths where
  "healthPaths = [(''/health'', Some (noOperations\<lparr>Get := Some anonymous\<rparr>)), (''/void'', None)]"

definition getBook :: Operation where
  "getBook = \<lparr>OperationID = ''Book'', Summary = ''Get a book'', Description = '''', RequestBody = None\<rparr>"

definition putBook :: Operation where
  "putBook =
     \<lparr>OperationID = ''Book'', Summary = ''Replace a book'', Description = '''',
      RequestBody = Some \<lparr>Ref = '''', Value = Some \<lparr>Required = True\<rparr>\<rparr>\<rparr>"

definition bookPaths :: Paths where
  "bookPaths = [(''/books/{id}'', Some (noOperations\<lparr>Get := Some getBook, Put := Some putBook\<rparr>))]"

definition traceBooks :: Operation where
  "traceBooks = \<lparr>OperationID = ''TraceBooks'', Summary = '''', Description = '''', RequestBody = None\<rparr>"

definition addBookInfo :: OperationInfo where
  "addBookInfo =
     \<lparr>ID = ''AddBook'', Summary = ''POST /books'', Description = ''POST /books'',
      ParameterType = ''AddBookJSONRequestBody'', HasRequestBody = True\<rparr>"

definition listBooksInfo :: OperationInfo where
  "listBooksInfo =
     \<lparr>ID = ''ListBooks'', Summary = ''GET /books'', Description = ''GET /books'',
      ParameterType = ''ListBooksParams'', HasRequestBody = False\<rparr>"

definition healthFirst :: Paths where
  "healthFirst = [(''/health'', Some (noOperations\<lparr>Get := Some anonymous\<rparr>)), (''/books'', Some booksItem)]"

definition booksFirst :: Paths where
  "booksFirst = [(''/books'', Some booksItem), (''/health'', Some (noOperations\<lparr>Get := Some anonymous\<rparr>))]"

definition missingCLI :: CLI where
  "missingCLI =
     defaultCLI\<lparr>ClientPackage := '''', ClientImport := '''', ServerURL := '''',
                UsernameEnv := '''', PasswordEnv := ''''\<rparr>"

definition libraryPaths :: Paths where
  "libraryPaths =
     [(''/books'', Some booksItem),
      (''/health'', Some (noOperations\<lparr>Get := Some anonymous\<rparr>)),
      (''/books/{id}'', Some (noOperations\<lparr>Get := Some getBook, Put := Some putBook\<rparr>))]"

definition created :: Response where
  "created = \<lparr>StatusCode = 201, Status = ''201 Created'', Body = ''{}''\<rparr>"

definition allBooks :: Response where
  "allBooks = \<lparr>StatusCode = 200, Status = ''200 OK'', Body = ''[]''\<rparr>"

definition exampleClient :: "unit restClient" where
  "exampleClient name arg =
     (if name = ''ListBooksWithResponse'' then
        (case arg of ByReference a \<Rightarrow> Inr allBooks | ByValue a \<Rightarrow> Inl ''no parameters'')
      else if name = ''AddBookWithResponse'' then Inr created
      else Inl ''connection refused'')"

definition patchBook :: Operation where
  "patchBook =
     \<lparr>OperationID = ''PatchBook'', Summary = '''', Description = '''',
      RequestBody = Some \<lparr>Ref = ''#/components/requestBodies/Patch'', Value = None\<rparr>\<rparr>"

section \<open>Extraction: helper lemmas\<close>

lemma processOperation_None: "processOperation path method None operations = operations"
  by (simp add: processOperation_def)

lemma foldl_store_present:
  "foldl store operations (present path slots) =
   foldl (\<lambda>t (method, operation). processOperation path method operation t) operations slots"
  by (induction path slots arbitrary: operations rule: present.induct)
     (simp_all add: store_def processOperation_None)

lemma processPathItem_store:
  "processPathItem path pathItem operations =
   foldl store operations (present path (methodSlots pathItem))"
  by (simp add: foldl_store_present) (simp add: processPathItem_def methodSlots_def Let_def)

lemma extractLoop_store:
  "extractLoop paths operations = foldl store operations (processed paths)"
  by (induction paths operations rule: extractLoop.induct) (simp_all add: processPathItem_store)

lemma store_apply:
  "store operations d k = (if idOf d = k \<and> k \<noteq> '''' then Some (infoOf d) else operations k)"
  by (auto simp: store_def idOf_def infoOf_def processOperation_def split: prod.splits)

lemma foldl_store_apply:
  "foldl store operations ds k =
     (if k \<noteq> '''' \<and> filter (\<lambda>d. idOf d = k) ds \<noteq> []
      then Some (infoOf (last (filter (\<lambda>d. idOf d = k) ds)))
      else operations k)"
proof (induction ds arbitrary: operations)
  case Nil
  then show ?case by simp
next
  case (Cons d ds)
  have "foldl store operations (d # ds) k = foldl store (store operations d) ds k"
    by simp
  also have "\<dots> =
     (if k \<noteq> '''' \<and> filter (\<lambda>d. idOf d = k) ds \<noteq> []
      then Some (infoOf (last (filter (\<lambda>d. idOf d = k) ds)))
      else store operations d k)"
    by (rule Cons.IH)
  also have "\<dots> =
     (if k \<noteq> '''' \<and> filter (\<lambda>d. idOf d = k) (d # ds) \<noteq> []
      then Some (infoOf (last (filter (\<lambda>d. idOf d = k) (d # ds))))
      else operations k)"
    unfolding store_apply by simp
  finally show ?case .
qed

lemma extractOperations_apply:
  "extractOperations paths k =
     (if k \<noteq> '''' \<and> definitionsOf k paths \<noteq> []
      then Some (infoOf (last (definitionsOf k paths)))
      else None)"
  by (simp add: extractOperations_def extractLoop_store foldl_store_apply definitionsOf_def)

lemma dom_extractOperations:
  "dom (extractOperations paths) = {k. k \<noteq> '''' \<and> k \<in> idOf ` set (processed paths)}"
proof -
  have "definitionsOf k paths \<noteq> [] \<longleftrightarrow> k \<in> idOf ` set (processed paths)" for k
    by (auto simp: definitionsOf_def filter_empty_conv)
  then show ?thesis
    by (auto simp: dom_def extractOperations_apply)
qed

lemma idOf_last_definitionsOf:
  "definitionsOf k paths \<noteq> [] \<Longrightarrow> idOf (last (definitionsOf k paths)) = k"
proof -
  assume ne: "definitionsOf k paths \<noteq> []"
  then have "last (definitionsOf k paths) \<in> set (definitionsOf k paths)"
    by (rule last_in_set)
  then show ?thesis
    by (simp add: definitionsOf_def)
qed

subsection \<open>operationInfo\<close>

lemma ID_operationInfo: "ID (operationInfo path method opn) = OperationID opn"
  by (simp add: operationInfo_def Let_def)

lemma HasRequestBody_operationInfo:
  "HasRequestBody (operationInfo path method opn) = hasRequestBody opn"
  by (simp add: operationInfo_def Let_def)

lemma ParameterType_operationInfo:
  "ParameterType (operationInfo path method opn) =
     (if hasRequestBody opn then OperationID opn @ ''JSONRequestBody''
      else OperationID opn @ ''Params'')"
  by (simp add: operationInfo_def Let_def)

lemma Summary_operationInfo:
  "Summary (operationInfo path method opn) =
     (if Operation.Summary opn = '''' then method @ '' '' @ path else Operation.Summary opn)"
  by (simp add: operationInfo_def Let_def)

lemma Description_operationInfo:
  "Description (operationInfo path method opn) =
     (if Operation.Description opn = '''' then Summary (operationInfo path method opn)
      else Operation.Description opn)"
  by (simp add: operationInfo_def Let_def)

lemma entryOk_operationInfo:
  "OperationID opn \<noteq> '''' \<Longrightarrow> entryOk (OperationID opn) (operationInfo path method opn)"
  by (simp add: entryOk_def ID_operationInfo HasRequestBody_operationInfo
      ParameterType_operationInfo Summary_operationInfo Description_operationInfo)

lemma tableInv_empty: "tableInv Map.empty"
  by (simp add: tableInv_def)

lemma tableInv_processOperation:
  "tableInv operations \<Longrightarrow> tableInv (processOperation path method operation operations)"
  by (auto simp: tableInv_def processOperation_def entryOk_operationInfo split: option.splits)

lemma tableInv_store: "tableInv operations \<Longrightarrow> tableInv (store operations d)"
  by (simp add: store_def tableInv_processOperation split: prod.splits)

lemma tableInv_foldl_store: "tableInv operations \<Longrightarrow> tableInv (foldl store operations ds)"
  by (induction ds arbitrary: operations) (simp_all add: tableInv_store)

lemma tableInv_extractOperations: "tableInv (extractOperations paths)"
  by (simp add: extractOperations_def extractLoop_store tableInv_foldl_store tableInv_empty)

lemma set_present:
  "set (present path slots) = {(path, method, opn) | method opn. (method, Some opn) \<in> set slots}"
  by (induction path slots rule: present.induct) auto

lemma set_processed:
  "set (processed paths) =
     {(path, method, opn) | path method opn item.
        (path, Some item) \<in> set paths \<and> (method, Some opn) \<in> set (methodSlots item)}"
  by (induction paths rule: processed.induct) (auto simp: set_present)

lemma methodSlots_other:
  "methodSlots (item\<lparr>Connect := c, Trace := t\<rparr>) = methodSlots item"
  by (simp add: methodSlots_def)

lemma processed_other:
  "processed (map (\<lambda>(path, item). (path, map_option (\<lambda>i. i\<lparr>Connect := c path, Trace := t path\<rparr>) item)) paths)
   = processed paths"
  by (induction paths rule: processed.induct) (simp_all add: methodSlots_other)

lemma extractOperations_processed:
  "processed paths = processed paths' \<Longrightarrow> extractOperations paths = extractOperations paths'"
  by (simp add: extractOperations_def extractLoop_store)

lemma extractOperations_origin:
  assumes "extractOperations paths k = Some info"
  shows "\<exists>path item method opn.
           (path, Some item) \<in> set paths \<and> (method, Some opn) \<in> set (methodSlots item) \<and>
           OperationID opn = k \<and> info = operationInfo path method opn"
proof -
  from assms have ne: "definitionsOf k paths \<noteq> []"
    and info: "info = infoOf (last (definitionsOf k paths))"
    by (auto simp: extractOperations_apply split: if_splits)
  from ne have "last (definitionsOf k paths) \<in> set (definitionsOf k paths)"
    by (rule last_in_set)
  then have m: "last (definitionsOf k paths) \<in> set (processed paths)"
    and i: "idOf (last (definitionsOf k paths)) = k"
    by (simp_all add: definitionsOf_def)
  from m obtain p0 m0 opn item where
    d: "last (definitionsOf k paths) = (p0, m0, opn)"
    and p: "(p0, Some item) \<in> set paths" "(m0, Some opn) \<in> set (methodSlots item)"
    unfolding set_processed by blast
  from d i info have "OperationID opn = k" "info = operationInfo p0 m0 opn"
    by (simp_all add: idOf_def infoOf_def)
  with p show ?thesis by blast
qed

lemma extractOperations_contributes:
  assumes "(path, Some item) \<in> set paths" and "(method, Some opn) \<in> set (methodSlots item)"
      and "OperationID opn \<noteq> ''''"
  shows "OperationID opn \<in> dom (extractOperations paths)"
proof -
  from assms(1,2) have "(path, method, opn) \<in> set (processed paths)"
    unfolding set_processed by blast
  then have "OperationID opn \<in> idOf ` set (processed paths)"
    by (force simp: idOf_def)
  with assms(3) show ?thesis
    unfolding dom_extractOperations by simp
qed

lemma processed_books:
  "processed books = [(''/books'', ''GET'', listBooks), (''/books'', ''POST'', addBook)]"
  by (simp add: books_def booksItem_def methodSlots_def noOperations_def)

lemma processed_no_usable:
  "dom (extractOperations paths) = {} \<longleftrightarrow> (\<forall>d \<in> set (processed paths). idOf d = '''')"
  unfolding dom_extractOperations by auto

section \<open>Synthesis: helper lemmas\<close>

lemma rangeValues_map:
  "rangeValues operations keys =
     map (\<lambda>k. the (operations k)) (filter (\<lambda>k. operations k \<noteq> None) keys)"
  by (induction keys) (auto split: option.splits)

lemma mset_rangeValues:
  "mset (rangeValues operations keys) =
     image_mset (\<lambda>k. the (operations k)) (filter_mset (\<lambda>k. operations k \<noteq> None) (mset keys))"
  by (simp add: rangeValues_map)

lemma rangeOrder_mset:
  assumes "rangeOrder keys operations" and "rangeOrder keys' operations"
  shows "mset keys = mset keys'"
  using assms unfolding rangeOrder_def by (metis set_eq_iff_mset_eq_distinct)

lemma rangeValues_mset_eq:
  assumes "rangeOrder keys operations" and "rangeOrder keys' operations"
  shows "mset (rangeValues operations keys) = mset (rangeValues operations keys')"
  by (simp add: mset_rangeValues rangeOrder_mset [OF assms])

lemma count_rangeValues:
  assumes "rangeOrder keys operations" and "tableInv operations"
  shows "length (filter (\<lambda>op. ID op = name) (rangeValues operations keys)) =
         (if name \<in> dom operations then 1 else 0)"
proof -
  from assms(1) have d: "distinct keys" and s: "set keys = dom operations"
    by (simp_all add: rangeOrder_def)
  have all: "filter (\<lambda>k. operations k \<noteq> None) keys = keys"
    using s by (auto simp: filter_id_conv)
  have id: "ID (the (operations k)) = k" if "k \<in> set keys" for k
    using that s assms(2) by (auto simp: tableInv_def entryOk_def)
  have rv: "rangeValues operations keys = map (\<lambda>k. the (operations k)) keys"
    by (simp only: rangeValues_map all)
  have "filter (\<lambda>op. ID op = name) (rangeValues operations keys) =
        map (\<lambda>k. the (operations k)) (filter (\<lambda>k. ID (the (operations k)) = name) keys)"
    unfolding rv by (simp add: filter_map comp_def)
  also have "filter (\<lambda>k. ID (the (operations k)) = name) keys = filter (\<lambda>k. k = name) keys"
    by (rule filter_cong) (simp_all add: id)
  finally have "length (filter (\<lambda>op. ID op = name) (rangeValues operations keys)) =
        length (filter (\<lambda>k. k = name) keys)"
    by simp
  also have "\<dots> = card ({k. k = name} \<inter> set keys)"
    using d by (rule distinct_length_filter)
  also have "{k. k = name} \<inter> set keys = (if name \<in> dom operations then {name} else {})"
    using s by auto
  also have "card (if name \<in> dom operations then {name} else {}) =
             (if name \<in> dom operations then 1 else 0)"
    by simp
  finally show ?thesis .
qed

lemma registersTool_mainBodyStart: "filter (registersTool name) (mainBodyStart cli) = []"
  by (simp add: mainBodyStart_def registersTool_def)

lemma registersTool_mainBodyEnd: "filter (registersTool name) mainBodyEnd = []"
  by (simp add: mainBodyEnd_def registersTool_def)

lemma registersTool_registerTool:
  "filter (registersTool name) (registerTool cli op) =
     (if ID op = name then [hd (registerTool cli op)] else [])"
  by (simp add: registerTool_def registersTool_def)

lemma length_registersTool_toolRegistrations:
  "length (filter (registersTool name) (toolRegistrations cli ops)) =
   length (filter (\<lambda>op. ID op = name) ops)"
  by (induction ops) (simp_all add: toolRegistrations_def registersTool_registerTool)

lemma mainStatements_synthesize: "mainStatements (synthesize cli ops) = mainBody cli ops"
  by (simp add: mainStatements_def synthesize_def)

lemma registrations_synthesize:
  "registrations name (synthesize cli ops) = length (filter (\<lambda>op. ID op = name) ops)"
  by (simp add: registrations_def mainStatements_synthesize mainBody_def
      registersTool_mainBodyStart registersTool_mainBodyEnd
      length_registersTool_toolRegistrations)

lemma generateMCPServer_empty:
  "dom (extractOperations paths) = {} \<Longrightarrow>
   generateMCPServer cli (Inr paths) keys =
     Failed (GenerateError ''no valid operations found in the OpenAPI spec'')"
  unfolding generateMCPServer_def by (simp add: Let_def)

lemma generateMCPServer_nonempty:
  "dom (extractOperations paths) \<noteq> {} \<Longrightarrow>
   generateMCPServer cli (Inr paths) keys =
     Saved (Output cli) (synthesize cli (rangeValues (extractOperations paths) keys))"
  unfolding generateMCPServer_def by (simp add: Let_def)

subsection \<open>The books example, evaluated\<close>

lemma extractOperations_books_AddBook: "extractOperations books ''AddBook'' = Some addBookInfo"
  by (simp add: extractOperations_apply definitionsOf_def processed_books idOf_def infoOf_def
      operationInfo_def Let_def hasRequestBody_def listBooks_def addBook_def addBookInfo_def)

lemma extractOperations_books_ListBooks:
  "extractOperations books ''ListBooks'' = Some listBooksInfo"
  by (simp add: extractOperations_apply definitionsOf_def processed_books idOf_def infoOf_def
      operationInfo_def Let_def hasRequestBody_def listBooks_def addBook_def listBooksInfo_def)

lemma dom_extractOperations_books: "dom (extractOperations books) = {''AddBook'', ''ListBooks''}"
  unfolding dom_extractOperations processed_books
  by (auto simp: idOf_def listBooks_def addBook_def)

lemma rangeOrder_books:
  "rangeOrder [''AddBook'', ''ListBooks''] (extractOperations books)"
  "rangeOrder [''ListBooks'', ''AddBook''] (extractOperations books)"
  unfolding rangeOrder_def dom_extractOperations_books by auto

lemma rangeValues_books:
  "rangeValues (extractOperations books) [''AddBook'', ''ListBooks''] = [addBookInfo, listBooksInfo]"
  "rangeValues (extractOperations books) [''ListBooks'', ''AddBook''] = [listBooksInfo, addBookInfo]"
  by (simp_all add: extractOperations_books_AddBook extractOperations_books_ListBooks)

lemma dom_books_nonempty: "dom (extractOperations books) \<noteq> {}"
  unfolding dom_extractOperations_books by simp

lemma synthesize_eq_toolRegistrations:
  assumes "synthesize cli ops = synthesize cli ops'"
  shows "toolRegistrations cli ops = toolRegistrations cli ops'"
proof -
  from assms have "mainStatements (synthesize cli ops) = mainStatements (synthesize cli ops')"
    by simp
  then show ?thesis
    by (simp add: mainStatements_synthesize mainBody_def)
qed

subsection \<open>Visiting the paths in another order\<close>

lemma mset_processed:
  "mset (processed paths) = (\<Sum>p \<in># mset paths. mset (processed [p]))"
  by (induction paths rule: processed.induct) simp_all

lemma mset_processed_cong:
  assumes "mset paths' = mset paths"
  shows "mset (processed paths') = mset (processed paths)"
  unfolding mset_processed [of paths'] mset_processed [of paths] assms by (rule refl)

lemma list_eq_of_mset_short:
  assumes "mset xs = mset ys" and "length ys \<le> 1"
  shows "xs = ys"
proof (cases ys)
  case Nil
  with assms show ?thesis by simp
next
  case (Cons y zs)
  with assms(2) have "ys = [y]" by simp
  with assms(1) show ?thesis by simp
qed

lemma uniqueIds_definitionsOf:
  assumes "uniqueIds paths" and "k \<noteq> ''''"
  shows "length (definitionsOf k paths) \<le> 1"
proof -
  let ?ids = "filter (\<lambda>k. k \<noteq> '''') (map idOf (processed paths))"
  have "length (definitionsOf k paths) = length (filter (\<lambda>x. x = k) (map idOf (processed paths)))"
    by (simp add: definitionsOf_def filter_map comp_def)
  also have "filter (\<lambda>x. x = k) (map idOf (processed paths)) = filter (\<lambda>x. x = k) ?ids"
    using assms(2) by (auto intro: filter_cong)
  also have "length (filter (\<lambda>x. x = k) ?ids) = card ({x. x = k} \<inter> set ?ids)"
    using assms(1) unfolding uniqueIds_def by (rule distinct_length_filter)
  also have "\<dots> \<le> card {k}"
    by (rule card_mono) auto
  finally show ?thesis by simp
qed

lemma extractOperations_permute:
  assumes "mset paths' = mset paths" and "uniqueIds paths"
  shows "extractOperations paths' = extractOperations paths"
proof
  fix k
  show "extractOperations paths' k = extractOperations paths k"
  proof (cases "k = ''''")
    case True
    then show ?thesis by (simp add: extractOperations_apply)
  next
    case False
    have "mset (definitionsOf k paths') = mset (definitionsOf k paths)"
      by (simp add: definitionsOf_def mset_processed_cong [OF assms(1)])
    then have "definitionsOf k paths' = definitionsOf k paths"
      using uniqueIds_definitionsOf [OF assms(2) False] by (rule list_eq_of_mset_short)
    then show ?thesis by (simp add: extractOperations_apply)
  qed
qed

subsection \<open>More examples, evaluated\<close>

lemma idOf_examples:
  "idOf (path, method, listBooks) = ''ListBooks''"
  "idOf (path, method, addBook) = ''AddBook''"
  "idOf (path, method, anonymous) = ''''"
  "idOf (path, method, getBook) = ''Book''"
  "idOf (path, method, putBook) = ''Book''"
  by (simp_all add: idOf_def listBooks_def addBook_def anonymous_def getBook_def putBook_def)

lemma infoOf_examples:
  "infoOf (''/books'', ''GET'', listBooks) = listBooksInfo"
  "infoOf (''/books'', ''POST'', addBook) = addBookInfo"
  by (simp_all add: infoOf_def operationInfo_def Let_def hasRequestBody_def listBooks_def
      addBook_def listBooksInfo_def addBookInfo_def)

lemma processed_booksFirst:
  "processed booksFirst =
     [(''/books'', ''GET'', listBooks), (''/books'', ''POST'', addBook),
      (''/health'', ''GET'', anonymous)]"
  by (simp add: booksFirst_def booksItem_def methodSlots_def noOperations_def)

lemma processed_healthFirst:
  "processed healthFirst =
     [(''/health'', ''GET'', anonymous),
      (''/books'', ''GET'', listBooks), (''/books'', ''POST'', addBook)]"
  by (simp add: healthFirst_def booksItem_def methodSlots_def noOperations_def)

lemma processed_libraryPaths:
  "processed libraryPaths =
     [(''/books'', ''GET'', listBooks), (''/books'', ''POST'', addBook),
      (''/health'', ''GET'', anonymous),
      (''/books/{id}'', ''GET'', getBook), (''/books/{id}'', ''PUT'', putBook)]"
  by (simp add: libraryPaths_def booksItem_def methodSlots_def noOperations_def)

lemma extractOperations_booksFirst:
  "extractOperations booksFirst ''AddBook'' = Some addBookInfo"
  "extractOperations booksFirst ''ListBooks'' = Some listBooksInfo"
  "dom (extractOperations booksFirst) = {''AddBook'', ''ListBooks''}"
  unfolding dom_extractOperations
  by (auto simp: extractOperations_apply definitionsOf_def processed_booksFirst idOf_examples
      infoOf_examples)

lemma extractOperations_healthFirst:
  "extractOperations healthFirst ''AddBook'' = Some addBookInfo"
  "extractOperations healthFirst ''ListBooks'' = Some listBooksInfo"
  "dom (extractOperations healthFirst) = {''AddBook'', ''ListBooks''}"
  unfolding dom_extractOperations
  by (auto simp: extractOperations_apply definitionsOf_def processed_healthFirst idOf_examples
      infoOf_examples)

lemma dom_extractOperations_libraryPaths:
  "dom (extractOperations libraryPaths) = {''Book'', ''AddBook'', ''ListBooks''}"
  unfolding dom_extractOperations
  by (auto simp: processed_libraryPaths idOf_examples)

subsection \<open>Generated symbols\<close>

lemma parameterType_inject:
  assumes "entryOk k op" and "entryOk k' op'" and "ParameterType op = ParameterType op'"
  shows "k = k'"
proof -
  have d: "a @ ''JSONRequestBody'' \<noteq> b @ ''Params''" for a b :: string
  proof
    assume "a @ ''JSONRequestBody'' = b @ ''Params''"
    then have "last (a @ ''JSONRequestBody'') = last (b @ ''Params'')"
      by (rule arg_cong)
    then show False by simp
  qed
  from assms(1) have p: "ParameterType op =
      (if HasRequestBody op then k @ ''JSONRequestBody'' else k @ ''Params'')"
    by (auto simp: entryOk_def)
  from assms(2) have p': "ParameterType op' =
      (if HasRequestBody op' then k' @ ''JSONRequestBody'' else k' @ ''Params'')"
    by (auto simp: entryOk_def)
  show ?thesis
    using assms(3) d [of k k'] d [of k' k] unfolding p p'
    by (cases "HasRequestBody op"; cases "HasRequestBody op'"; simp)
qed

lemma rangeValues_ids:
  assumes "rangeOrder keys operations" and "tableInv operations"
  shows "map ID (rangeValues operations keys) = keys"
proof -
  from assms(1) have s: "set keys = dom operations"
    by (simp add: rangeOrder_def)
  have all: "filter (\<lambda>k. operations k \<noteq> None) keys = keys"
    using s by (auto simp: filter_id_conv)
  have "map ID (rangeValues operations keys) = map (\<lambda>k. ID (the (operations k))) keys"
    by (simp only: rangeValues_map all) (simp add: comp_def)
  also have "\<dots> = map (\<lambda>k. k) keys"
    using s assms(2) by (intro map_cong refl) (auto simp: tableInv_def entryOk_def)
  finally show ?thesis by simp
qed

subsection \<open>The names registered in the output\<close>

lemma map_filter_append:
  "List.map_filter f (xs @ ys) = List.map_filter f xs @ List.map_filter f ys"
  by (simp add: List.map_filter_def)

lemma registeredName_mainBodyStart: "List.map_filter registeredName (mainBodyStart cli) = []"
  by (simp add: mainBodyStart_def registeredName_def List.map_filter_def)

lemma registeredName_mainBodyEnd: "List.map_filter registeredName mainBodyEnd = []"
  by (simp add: mainBodyEnd_def registeredName_def List.map_filter_def)

lemma registeredName_registerTool:
  "List.map_filter registeredName (registerTool cli op) = [ID op]"
  by (simp add: registerTool_def registeredName_def List.map_filter_def)

lemma registeredName_toolRegistrations:
  "List.map_filter registeredName (toolRegistrations cli ops) = map ID ops"
proof (induction ops)
  case Nil
  show ?case by (simp add: toolRegistrations_def List.map_filter_def)
next
  case (Cons op ops)
  have "toolRegistrations cli (op # ops) = registerTool cli op @ toolRegistrations cli ops"
    by (simp add: toolRegistrations_def)
  then show ?case
    by (simp only: map_filter_append registeredName_registerTool Cons.IH list.map append_Cons
        append_Nil)
qed

lemma registeredNames_synthesize: "registeredNames (synthesize cli ops) = map ID ops"
  by (simp only: registeredNames_def mainStatements_synthesize mainBody_def map_filter_append
      registeredName_mainBodyStart registeredName_mainBodyEnd registeredName_toolRegistrations
      append_Nil append_Nil2)

lemma rangeValues_Some:
  assumes "set keys \<subseteq> dom operations"
  shows "map operations keys = map Some (rangeValues operations keys)"
  using assms by (induction keys) auto

lemma synthesize_parts:
  "PackageName (synthesize cli ops) = Package cli"
  "ImportNames (synthesize cli ops) = importNames cli"
  "Decls (synthesize cli ops) =
     [[jen_Func, jen_Id ''main'', jen_Params [], jen_Block (mainStatements (synthesize cli ops))]]"
  "mainStatements (synthesize cli ops) =
     mainBodyStart cli @ concat (map (registerTool cli) ops) @ mainBodyEnd"
  by (simp_all add: mainStatements_synthesize mainBody_def toolRegistrations_def)
     (simp_all add: synthesize_def mainBody_def toolRegistrations_def)

section \<open>The generated handler: helper lemmas\<close>

subsection \<open>Formatting\<close>

lemma Sprintf_prefix:
  "CHR ''%'' \<notin> set s \<Longrightarrow> Sprintf (s @ t) vs = map_option ((@) s) (Sprintf t vs)"
proof (induction s)
  case Nil
  show ?case by (cases "Sprintf t vs") simp_all
next
  case (Cons c s)
  then show ?case by (cases "Sprintf t vs") auto
qed

lemma Sprintf_verb:
  "Sprintf ''%v'' [GoError e] = Some e"
  "Sprintf ''%s'' [GoString t] = Some t"
  by simp_all

lemma Sprintf_error_calling:
  assumes "CHR ''%'' \<notin> set name"
  shows "Sprintf (''error calling '' @ name @ '': %v'') [GoError e] =
         Some (''error calling '' @ name @ '': '' @ e)"
proof -
  have "CHR ''%'' \<notin> set (''error calling '' @ name @ '': '')"
    using assms by simp
  then have "Sprintf ((''error calling '' @ name @ '': '') @ ''%v'') [GoError e] =
        map_option ((@) (''error calling '' @ name @ '': '')) (Sprintf ''%v'' [GoError e])"
    by (rule Sprintf_prefix)
  then show ?thesis
    by (simp only: Sprintf_verb option.map append_assoc append_Cons append_Nil)
qed

lemma Sprintf_error_on:
  assumes "CHR ''%'' \<notin> set name"
  shows "Sprintf (''error on '' @ name @ '': %s'') [GoString t] =
         Some (''error on '' @ name @ '': '' @ t)"
proof -
  have "CHR ''%'' \<notin> set (''error on '' @ name @ '': '')"
    using assms by simp
  then have "Sprintf ((''error on '' @ name @ '': '') @ ''%s'') [GoString t] =
        map_option ((@) (''error on '' @ name @ '': '')) (Sprintf ''%s'' [GoString t])"
    by (rule Sprintf_prefix)
  then show ?thesis
    by (simp only: Sprintf_verb option.map append_assoc append_Cons append_Nil)
qed

subsection \<open>Expressions of a handler\<close>

lemma evalExpr_Nil: "evalExpr fr [jen_Nil] = Some GoNil"
  by simp

lemma evalExpr_Err:
  "evalExpr fr [jen_Err] = Some (case var_err fr of None \<Rightarrow> GoNil | Some m \<Rightarrow> GoError m)"
  by simp

lemma evalExpr_Lit: "evalExpr fr [jen_Lit s] = Some (GoString s)"
  by simp

lemma evalExpr_LitInt: "evalExpr fr [jen_LitInt n] = Some (GoInt n)"
  by simp

lemma evalExpr_Body:
  "evalExpr fr [jen_Id ''resp'', jen_Dot ''Body''] =
     map_option (\<lambda>r. GoBytes (Body r)) (var_resp fr)"
  by simp

lemma evalExpr_StatusCode:
  "evalExpr fr [jen_Id ''resp'', jen_Dot ''StatusCode'', jen_Call []] =
     map_option (\<lambda>r. GoInt (StatusCode r)) (var_resp fr)"
  by simp

lemma evalExpr_Status:
  "evalExpr fr [jen_Id ''resp'', jen_Dot ''Status'', jen_Call []] =
     map_option (\<lambda>r. GoString (Status r)) (var_resp fr)"
  by simp

lemma evalExpr_String:
  "evalExpr fr [jen_String, jen_Call args] =
     (case map (evalExpr fr) args of [Some (GoBytes b)] \<Rightarrow> Some (GoString b) | _ \<Rightarrow> None)"
  by simp

lemma evalExpr_Qual:
  "evalExpr fr [jen_Qual pkg name, jen_Call args] =
     callFunction pkg name (map (evalExpr fr) args)"
  by simp

subsection \<open>Statements of a handler\<close>

lemma evalNotEqual_err:
  "evalNotEqual fr [jen_Err, jen_Op ''!='', jen_Nil] = Some (var_err fr \<noteq> None)"
  by (simp add: evalNotEqual_def Let_def split: option.splits)

lemma evalNotEqual_status:
  "evalNotEqual fr
     [jen_Id ''resp'', jen_Dot ''StatusCode'', jen_Call [], jen_Op ''!='', jen_LitInt 200] =
   map_option (\<lambda>r. StatusCode r \<noteq> 200) (var_resp fr)"
  by (simp add: evalNotEqual_def Let_def split: option.splits)

lemma evalArgument_paramExpr:
  "evalArgument fr (paramExpr op) =
     Some (if HasRequestBody op then ByValue (var_arguments fr)
           else ByReference (var_arguments fr))"
  by (simp add: evalArgument_def paramExpr_def)

lemma execBlock_handlerBody:
  assumes "CHR ''%'' \<notin> set (ID op)"
  shows "execBlock client fr (handlerBody op) =
     Some (Returned
       (case client (ID op @ ''WithResponse'')
               (if HasRequestBody op then ByValue (var_arguments fr)
                else ByReference (var_arguments fr)) of
          Inl e \<Rightarrow> [GoNil, GoError (''error calling '' @ ID op @ '': '' @ e)]
        | Inr r \<Rightarrow>
            if StatusCode r \<noteq> 200
            then [GoNil, GoError (''error on '' @ ID op @ '': '' @ Status r)]
            else [GoToolResponse [GoTextContent (Body r)], GoNil]))"
proof (cases "client (ID op @ ''WithResponse'')
               (if HasRequestBody op then ByValue (var_arguments fr)
                else ByReference (var_arguments fr))")
  case (Inl e)
  then show ?thesis
    using assms
    by (simp add: handlerBody_def evalArgument_paramExpr evalNotEqual_err assignResult_def
        callFunction_def Sprintf_prefix del: evalExpr.simps
        add: evalExpr_Nil evalExpr_Err evalExpr_Lit evalExpr_Qual)
next
  case (Inr r)
  then show ?thesis
    using assms
    by (simp add: handlerBody_def evalArgument_paramExpr evalNotEqual_err evalNotEqual_status
        assignResult_def callFunction_def Sprintf_prefix del: evalExpr.simps
        add: evalExpr_Nil evalExpr_Err evalExpr_Lit evalExpr_Qual evalExpr_Status
          evalExpr_Body evalExpr_String)
qed

lemma callHandler_handlerBody:
  assumes "CHR ''%'' \<notin> set (ID op)"
  shows "callHandler client (handlerBody op) a =
     Some (case client (ID op @ ''WithResponse'')
                 (if HasRequestBody op then ByValue a else ByReference a) of
             Inl e \<Rightarrow> [GoNil, GoError (''error calling '' @ ID op @ '': '' @ e)]
           | Inr r \<Rightarrow>
               if StatusCode r \<noteq> 200
               then [GoNil, GoError (''error on '' @ ID op @ '': '' @ Status r)]
               else [GoToolResponse [GoTextContent (Body r)], GoNil])"
  unfolding callHandler_def execBlock_handlerBody [OF assms] by simp

section \<open>C1: the output and the order of the registrations\<close>

text \<open>
  The books example, its table visited once with \<^verbatim>\<open>AddBook\<close> first and once with
  \<^verbatim>\<open>ListBooks\<close> first: both are orders a \<^verbatim>\<open>range\<close> over the table may take, and
  the two files handed to \<^verbatim>\<open>Save\<close> differ. The registrations are emitted in the
  order of the visit, which is not sorted.
\<close>


theorem registration_order_counterexample:
  "rangeOrder [''AddBook'', ''ListBooks''] (extractOperations books) \<and>
   rangeOrder [''ListBooks'', ''AddBook''] (extractOperations books) \<and>
   generateMCPServer defaultCLI (Inr books) [''AddBook'', ''ListBooks''] \<noteq>
   generateMCPServer defaultCLI (Inr books) [''ListBooks'', ''AddBook'']"
proof -
  have "toolRegistrations defaultCLI [addBookInfo, listBooksInfo] \<noteq>
        toolRegistrations defaultCLI [listBooksInfo, addBookInfo]"
    by (simp add: toolRegistrations_def registerTool_def addBookInfo_def listBooksInfo_def)
  then have "synthesize defaultCLI [addBookInfo, listBooksInfo] \<noteq>
             synthesize defaultCLI [listBooksInfo, addBookInfo]"
    using synthesize_eq_toolRegistrations by blast
  then show ?thesis
    by (simp only: rangeOrder_books generateMCPServer_nonempty [OF dom_books_nonempty]
        rangeValues_books outcome.inject simp_thms)
qed

text \<open>
  C1 (amended). The registrations are emitted in the order in which the run visits the
  table; nothing sorts them. Take two runs on the same description and configuration:
  the paths of the second run are those of the first in any order, and each run visits
  its table in an order of its own. If no identifier is defined twice in the
  description, or if both runs visit the paths in the same order, both runs extract the
  same table, and either both return the error of the empty table, or each hands a file
  to \<^verbatim>\<open>Save\<close> at the same path. The two files have the same package name and the
  same imports, and each is one function \<^verbatim>\<open>main\<close> whose statements are the same
  leading statements, then the two registration statements of each record of the table
  in the order of that run's visit, then the same trailing statements: the tool names
  registered, read in order, are the keys as visited, and the records registered are the
  same in both runs up to their order.
\<close>

theorem output_up_to_registration_order:
  assumes "mset paths' = mset paths" and "uniqueIds paths \<or> paths' = paths"
      and "rangeOrder keys (extractOperations paths)"
      and "rangeOrder keys' (extractOperations paths')"
  shows "extractOperations paths' = extractOperations paths \<and>
         (if dom (extractOperations paths) = {}
          then generateMCPServer cli (Inr paths) keys =
                 Failed (GenerateError ''no valid operations found in the OpenAPI spec'') \<and>
               generateMCPServer cli (Inr paths') keys' =
                 Failed (GenerateError ''no valid operations found in the OpenAPI spec'')
          else (\<exists>f f' ops ops'.
                 generateMCPServer cli (Inr paths) keys = Saved (Output cli) f \<and>
                 generateMCPServer cli (Inr paths') keys' = Saved (Output cli) f' \<and>
                 PackageName f = Package cli \<and> PackageName f' = Package cli \<and>
                 ImportNames f' = ImportNames f \<and>
                 Decls f =
                   [[jen_Func, jen_Id ''main'', jen_Params [], jen_Block (mainStatements f)]] \<and>
                 Decls f' =
                   [[jen_Func, jen_Id ''main'', jen_Params [], jen_Block (mainStatements f')]] \<and>
                 mainStatements f =
                   mainBodyStart cli @ concat (map (registerTool cli) ops) @ mainBodyEnd \<and>
                 mainStatements f' =
                   mainBodyStart cli @ concat (map (registerTool cli) ops') @ mainBodyEnd \<and>
                 map (extractOperations paths) keys = map Some ops \<and>
                 map (extractOperations paths') keys' = map Some ops' \<and>
                 mset ops' = mset ops \<and>
                 registeredNames f = keys \<and> registeredNames f' = keys'))"
proof -
  let ?T = "extractOperations paths"
  have e: "extractOperations paths' = ?T"
    using assms(1,2) extractOperations_permute by blast
  from assms(4) have r: "rangeOrder keys' ?T"
    by (simp only: e)
  show ?thesis
  proof (cases "dom ?T = {}")
    case True
    have t': "dom (extractOperations paths') = {}"
      unfolding e by (rule True)
    have "generateMCPServer cli (Inr paths) keys =
            Failed (GenerateError ''no valid operations found in the OpenAPI spec'') \<and>
          generateMCPServer cli (Inr paths') keys' =
            Failed (GenerateError ''no valid operations found in the OpenAPI spec'')"
      using generateMCPServer_empty [OF True] generateMCPServer_empty [OF t'] by (rule conjI)
    then show ?thesis
      unfolding if_P [OF True] using e by blast
  next
    case False
    have f': "dom (extractOperations paths') \<noteq> {}"
      unfolding e by (rule False)
    let ?ops = "rangeValues ?T keys" and ?ops' = "rangeValues ?T keys'"
    let ?f = "synthesize cli ?ops" and ?f' = "synthesize cli ?ops'"
    have g: "generateMCPServer cli (Inr paths) keys = Saved (Output cli) ?f"
      by (rule generateMCPServer_nonempty [OF False])
    have g': "generateMCPServer cli (Inr paths') keys' = Saved (Output cli) ?f'"
      using generateMCPServer_nonempty [OF f', of cli keys'] by (simp only: e)
    have s: "map ?T keys = map Some ?ops"
      using assms(3) by (intro rangeValues_Some) (simp add: rangeOrder_def)
    have s': "map (extractOperations paths') keys' = map Some ?ops'"
      unfolding e using r by (intro rangeValues_Some) (simp add: rangeOrder_def)
    have m: "mset ?ops' = mset ?ops"
      using r assms(3) by (rule rangeValues_mset_eq)
    have n: "registeredNames ?f = keys"
      unfolding registeredNames_synthesize
      using assms(3) tableInv_extractOperations by (rule rangeValues_ids)
    have n': "registeredNames ?f' = keys'"
      unfolding registeredNames_synthesize
      using r tableInv_extractOperations by (rule rangeValues_ids)
    have i: "ImportNames ?f' = ImportNames ?f"
      by (simp only: synthesize_parts)
    show ?thesis
      unfolding if_not_P [OF False]
      apply (rule conjI [OF e])
      apply (rule exI [of _ ?f], rule exI [of _ ?f'], rule exI [of _ ?ops],
          rule exI [of _ ?ops'])
      apply (intro conjI g g' s s' m n n' i synthesize_parts)
      done
  qed
qed

text \<open>
  The books example with a second path: the two runs visit the paths in opposite
  orders and the table in opposite orders.
\<close>

theorem output_up_to_registration_order_witness:
  "mset healthFirst = mset booksFirst \<and> uniqueIds booksFirst \<and>
   rangeOrder [''AddBook'', ''ListBooks''] (extractOperations booksFirst) \<and>
   rangeOrder [''ListBooks'', ''AddBook''] (extractOperations healthFirst) \<and>
   dom (extractOperations booksFirst) \<noteq> {} \<and>
   (\<exists>f f' ops ops'.
      generateMCPServer defaultCLI (Inr booksFirst) [''AddBook'', ''ListBooks''] =
        Saved ''./generated/main.go'' f \<and>
      generateMCPServer defaultCLI (Inr healthFirst) [''ListBooks'', ''AddBook''] =
        Saved ''./generated/main.go'' f' \<and>
      mainStatements f =
        mainBodyStart defaultCLI @ concat (map (registerTool defaultCLI) ops) @ mainBodyEnd \<and>
      mainStatements f' =
        mainBodyStart defaultCLI @ concat (map (registerTool defaultCLI) ops') @ mainBodyEnd \<and>
      ops = [addBookInfo, listBooksInfo] \<and> ops' = [listBooksInfo, addBookInfo] \<and>
      mset ops' = mset ops \<and>
      registeredNames f = [''AddBook'', ''ListBooks''] \<and>
      registeredNames f' = [''ListBooks'', ''AddBook''])"
proof -
  have p: "mset healthFirst = mset booksFirst"
    by (simp add: healthFirst_def booksFirst_def)
  have u: "uniqueIds booksFirst"
    by (simp add: uniqueIds_def processed_booksFirst idOf_examples)
  then have u': "uniqueIds booksFirst \<or> healthFirst = booksFirst" ..
  have r: "rangeOrder [''AddBook'', ''ListBooks''] (extractOperations booksFirst)"
    and r': "rangeOrder [''ListBooks'', ''AddBook''] (extractOperations healthFirst)"
    unfolding rangeOrder_def extractOperations_booksFirst extractOperations_healthFirst
    by auto
  have n: "dom (extractOperations booksFirst) \<noteq> {}"
    unfolding extractOperations_booksFirst by simp
  have o: "Output defaultCLI = ''./generated/main.go''"
    by (simp add: defaultCLI_def)
  from output_up_to_registration_order [OF p u' r r', of defaultCLI]
  obtain f f' ops ops' where
    g: "generateMCPServer defaultCLI (Inr booksFirst) [''AddBook'', ''ListBooks''] =
          Saved ''./generated/main.go'' f"
       "generateMCPServer defaultCLI (Inr healthFirst) [''ListBooks'', ''AddBook''] =
          Saved ''./generated/main.go'' f'"
    and b: "mainStatements f =
          mainBodyStart defaultCLI @ concat (map (registerTool defaultCLI) ops) @ mainBodyEnd"
       "mainStatements f' =
          mainBodyStart defaultCLI @ concat (map (registerTool defaultCLI) ops') @ mainBodyEnd"
    and s: "map (extractOperations booksFirst) [''AddBook'', ''ListBooks''] = map Some ops"
       "map (extractOperations healthFirst) [''ListBooks'', ''AddBook''] = map Some ops'"
    and m: "mset ops' = mset ops"
    and k: "registeredNames f = [''AddBook'', ''ListBooks'']"
       "registeredNames f' = [''ListBooks'', ''AddBook'']"
    unfolding if_not_P [OF n] o by blast
  from s(1) have "map Some ops = map Some [addBookInfo, listBooksInfo]"
    by (simp add: extractOperations_booksFirst)
  then have v: "ops = [addBookInfo, listBooksInfo]"
    by (simp only: inj_map_eq_map [OF inj_Some])
  from s(2) have "map Some ops' = map Some [listBooksInfo, addBookInfo]"
    by (simp add: extractOperations_healthFirst)
  then have v': "ops' = [listBooksInfo, addBookInfo]"
    by (simp only: inj_map_eq_map [OF inj_Some])
  from p u r r' n g b v v' m k show ?thesis by blast
qed

section \<open>C2: the fork between request body and parameters\<close>

text \<open>
  C2. For an operation definition with a (non-empty) identifier \<open>id\<close>, whatever the table
  held before, \<^verbatim>\<open>processOperation\<close> stores a record under \<open>id\<close>. If the definition
  carries a request body (its \<^verbatim>\<open>RequestBody\<close> is not nil and holds a value), the
  record has \<open>HasRequestBody\<close> true and the \<open>ParameterType\<close> \<^verbatim>\<open><id>JSONRequestBody\<close>,
  and the registration synthesized for it declares the handler's parameter of that type
  and calls \<^verbatim>\<open>restClient.<id>WithResponse(context.TODO(), arguments)\<close>, by value. If
  it carries none (\<^verbatim>\<open>RequestBody\<close> is nil, or is a reference without value), the
  record has \<open>HasRequestBody\<close> false and the \<open>ParameterType\<close> \<^verbatim>\<open><id>Params\<close>, and
  the call is \<^verbatim>\<open>restClient.<id>WithResponse(context.TODO(), &arguments)\<close>, by
  reference.
\<close>

theorem body_parameter_fork:
  assumes "OperationID opn \<noteq> ''''"
  shows "\<exists>info. processOperation path method (Some opn) operations (OperationID opn) = Some info \<and>
     ((\<exists>r b. RequestBody opn = Some r \<and> Value r = Some b) \<longrightarrow>
        HasRequestBody info \<and>
        ParameterType info = OperationID opn @ ''JSONRequestBody'' \<and>
        (\<exists>descr results rest check.
           registerTool cli info =
             [[jen_Err, jen_Op ''='', jen_Id ''server'', jen_Dot ''RegisterTool'',
               jen_Call
                 [[jen_Lit (OperationID opn)], descr,
                  [jen_Func,
                   jen_Params
                     [[jen_Id ''arguments'',
                       jen_Qual (ClientImport cli) (OperationID opn @ ''JSONRequestBody'')]],
                   results,
                   jen_Block
                     ([jen_List [[jen_Id ''resp''], [jen_Err]], jen_Op '':='',
                       jen_Id ''restClient'', jen_Dot (OperationID opn @ ''WithResponse''),
                       jen_Call [[jen_Qual ''context'' ''TODO'', jen_Call []],
                                 [jen_Id ''arguments'']]] # rest)]]],
              check])) \<and>
     (RequestBody opn = None \<or> (\<exists>r. RequestBody opn = Some r \<and> Value r = None) \<longrightarrow>
        \<not> HasRequestBody info \<and>
        ParameterType info = OperationID opn @ ''Params'' \<and>
        (\<exists>descr results rest check.
           registerTool cli info =
             [[jen_Err, jen_Op ''='', jen_Id ''server'', jen_Dot ''RegisterTool'',
               jen_Call
                 [[jen_Lit (OperationID opn)], descr,
                  [jen_Func,
                   jen_Params
                     [[jen_Id ''arguments'',
                       jen_Qual (ClientImport cli) (OperationID opn @ ''Params'')]],
                   results,
                   jen_Block
                     ([jen_List [[jen_Id ''resp''], [jen_Err]], jen_Op '':='',
                       jen_Id ''restClient'', jen_Dot (OperationID opn @ ''WithResponse''),
                       jen_Call [[jen_Qual ''context'' ''TODO'', jen_Call []],
                                 [jen_Op ''&'', jen_Id ''arguments'']]] # rest)]]],
              check]))"
proof -
  let ?info = "operationInfo path method opn"
  have p: "processOperation path method (Some opn) operations (OperationID opn) = Some ?info"
    using assms by (simp add: processOperation_def)
  have yes: "hasRequestBody opn" if "\<exists>r b. RequestBody opn = Some r \<and> Value r = Some b"
    using that by (auto simp: hasRequestBody_def)
  have no: "\<not> hasRequestBody opn"
    if "RequestBody opn = None \<or> (\<exists>r. RequestBody opn = Some r \<and> Value r = None)"
    using that by (auto simp: hasRequestBody_def)
  have a: "HasRequestBody ?info \<and>
        ParameterType ?info = OperationID opn @ ''JSONRequestBody'' \<and>
        (\<exists>descr results rest check.
           registerTool cli ?info =
             [[jen_Err, jen_Op ''='', jen_Id ''server'', jen_Dot ''RegisterTool'',
               jen_Call
                 [[jen_Lit (OperationID opn)], descr,
                  [jen_Func,
                   jen_Params
                     [[jen_Id ''arguments'',
                       jen_Qual (ClientImport cli) (OperationID opn @ ''JSONRequestBody'')]],
                   results,
                   jen_Block
                     ([jen_List [[jen_Id ''resp''], [jen_Err]], jen_Op '':='',
                       jen_Id ''restClient'', jen_Dot (OperationID opn @ ''WithResponse''),
                       jen_Call [[jen_Qual ''context'' ''TODO'', jen_Call []],
                                 [jen_Id ''arguments'']]] # rest)]]],
              check])"
    if "\<exists>r b. RequestBody opn = Some r \<and> Value r = Some b"
    using yes [OF that]
    by (simp add: HasRequestBody_operationInfo ParameterType_operationInfo ID_operationInfo
        registerTool_def handlerBody_def paramExpr_def)
  have b: "\<not> HasRequestBody ?info \<and>
        ParameterType ?info = OperationID opn @ ''Params'' \<and>
        (\<exists>descr results rest check.
           registerTool cli ?info =
             [[jen_Err, jen_Op ''='', jen_Id ''server'', jen_Dot ''RegisterTool'',
               jen_Call
                 [[jen_Lit (OperationID opn)], descr,
                  [jen_Func,
                   jen_Params
                     [[jen_Id ''arguments'',
                       jen_Qual (ClientImport cli) (OperationID opn @ ''Params'')]],
                   results,
                   jen_Block
                     ([jen_List [[jen_Id ''resp''], [jen_Err]], jen_Op '':='',
                       jen_Id ''restClient'', jen_Dot (OperationID opn @ ''WithResponse''),
                       jen_Call [[jen_Qual ''context'' ''TODO'', jen_Call []],
                                 [jen_Op ''&'', jen_Id ''arguments'']]] # rest)]]],
              check])"
    if "RequestBody opn = None \<or> (\<exists>r. RequestBody opn = Some r \<and> Value r = None)"
    using no [OF that]
    by (simp add: HasRequestBody_operationInfo ParameterType_operationInfo ID_operationInfo
        registerTool_def handlerBody_def paramExpr_def)
  from p a b show ?thesis by blast
qed

text \<open>
  \<^verbatim>\<open>AddBook\<close> has a request body, \<^verbatim>\<open>ListBooks\<close> has none, and \<^verbatim>\<open>PatchBook\<close> has
  a reference without value.
\<close>

theorem body_parameter_fork_witness:
  "OperationID addBook \<noteq> '''' \<and>
   (\<exists>r b. RequestBody addBook = Some r \<and> Value r = Some b) \<and>
   (\<exists>info. processOperation ''/books'' ''POST'' (Some addBook) Map.empty ''AddBook'' = Some info \<and>
      HasRequestBody info \<and> ParameterType info = ''AddBookJSONRequestBody'' \<and>
      (\<exists>descr results rest check.
         registerTool defaultCLI info =
           [[jen_Err, jen_Op ''='', jen_Id ''server'', jen_Dot ''RegisterTool'',
             jen_Call
               [[jen_Lit ''AddBook''], descr,
                [jen_Func,
                 jen_Params
                   [[jen_Id ''arguments'',
                     jen_Qual ''github.com/renato0307/go-mcp-rest/generated/api''
                       ''AddBookJSONRequestBody'']],
                 results,
                 jen_Block
                   ([jen_List [[jen_Id ''resp''], [jen_Err]], jen_Op '':='',
                     jen_Id ''restClient'', jen_Dot ''AddBookWithResponse'',
                     jen_Call [[jen_Qual ''context'' ''TODO'', jen_Call []],
                               [jen_Id ''arguments'']]] # rest)]]],
            check])) \<and>
   OperationID listBooks \<noteq> '''' \<and> RequestBody listBooks = None \<and>
   (\<exists>info. processOperation ''/books'' ''GET'' (Some listBooks) Map.empty ''ListBooks'' = Some info \<and>
      \<not> HasRequestBody info \<and> ParameterType info = ''ListBooksParams'' \<and>
      (\<exists>descr results rest check.
         registerTool defaultCLI info =
           [[jen_Err, jen_Op ''='', jen_Id ''server'', jen_Dot ''RegisterTool'',
             jen_Call
               [[jen_Lit ''ListBooks''], descr,
                [jen_Func,
                 jen_Params
                   [[jen_Id ''arguments'',
                     jen_Qual ''github.com/renato0307/go-mcp-rest/generated/api''
                       ''ListBooksParams'']],
                 results,
                 jen_Block
                   ([jen_List [[jen_Id ''resp''], [jen_Err]], jen_Op '':='',
                     jen_Id ''restClient'', jen_Dot ''ListBooksWithResponse'',
                     jen_Call [[jen_Qual ''context'' ''TODO'', jen_Call []],
                               [jen_Op ''&'', jen_Id ''arguments'']]] # rest)]]],
            check])) \<and>
   OperationID patchBook \<noteq> '''' \<and>
   (\<exists>r. RequestBody patchBook = Some r \<and> Value r = None) \<and>
   (\<exists>info. processOperation ''/books/{id}'' ''PATCH'' (Some patchBook) Map.empty ''PatchBook'' =
             Some info \<and>
      \<not> HasRequestBody info \<and> ParameterType info = ''PatchBookParams'')"
proof -
  have a: "OperationID addBook \<noteq> ''''" and ia: "OperationID addBook = ''AddBook''"
    and ab: "\<exists>r b. RequestBody addBook = Some r \<and> Value r = Some b"
    by (simp_all add: addBook_def)
  have l: "OperationID listBooks \<noteq> ''''" and il: "OperationID listBooks = ''ListBooks''"
    and lb: "RequestBody listBooks = None"
    by (simp_all add: listBooks_def)
  have p: "OperationID patchBook \<noteq> ''''" and ip: "OperationID patchBook = ''PatchBook''"
    and pb: "\<exists>r. RequestBody patchBook = Some r \<and> Value r = None"
    by (simp_all add: patchBook_def)
  have c: "ClientImport defaultCLI = ''github.com/renato0307/go-mcp-rest/generated/api''"
    by (simp add: defaultCLI_def)
  note ta = body_parameter_fork [OF a, of "''/books''" "''POST''" Map.empty defaultCLI]
  note tl = body_parameter_fork [OF l, of "''/books''" "''GET''" Map.empty defaultCLI]
  note tp = body_parameter_fork [OF p, of "''/books/{id}''" "''PATCH''" Map.empty defaultCLI]
  have wa: "\<exists>info. processOperation ''/books'' ''POST'' (Some addBook) Map.empty ''AddBook'' =
             Some info \<and>
      HasRequestBody info \<and> ParameterType info = ''AddBookJSONRequestBody'' \<and>
      (\<exists>descr results rest check.
         registerTool defaultCLI info =
           [[jen_Err, jen_Op ''='', jen_Id ''server'', jen_Dot ''RegisterTool'',
             jen_Call
               [[jen_Lit ''AddBook''], descr,
                [jen_Func,
                 jen_Params
                   [[jen_Id ''arguments'',
                     jen_Qual ''github.com/renato0307/go-mcp-rest/generated/api''
                       ''AddBookJSONRequestBody'']],
                 results,
                 jen_Block
                   ([jen_List [[jen_Id ''resp''], [jen_Err]], jen_Op '':='',
                     jen_Id ''restClient'', jen_Dot ''AddBookWithResponse'',
                     jen_Call [[jen_Qual ''context'' ''TODO'', jen_Call []],
                               [jen_Id ''arguments'']]] # rest)]]],
            check])"
    using ta ab unfolding ia c append_Cons append_Nil by blast
  have wl: "\<exists>info. processOperation ''/books'' ''GET'' (Some listBooks) Map.empty ''ListBooks'' =
             Some info \<and>
      \<not> HasRequestBody info \<and> ParameterType info = ''ListBooksParams'' \<and>
      (\<exists>descr results rest check.
         registerTool defaultCLI info =
           [[jen_Err, jen_Op ''='', jen_Id ''server'', jen_Dot ''RegisterTool'',
             jen_Call
               [[jen_Lit ''ListBooks''], descr,
                [jen_Func,
                 jen_Params
                   [[jen_Id ''arguments'',
                     jen_Qual ''github.com/renato0307/go-mcp-rest/generated/api''
                       ''ListBooksParams'']],
                 results,
                 jen_Block
                   ([jen_List [[jen_Id ''resp''], [jen_Err]], jen_Op '':='',
                     jen_Id ''restClient'', jen_Dot ''ListBooksWithResponse'',
                     jen_Call [[jen_Qual ''context'' ''TODO'', jen_Call []],
                               [jen_Op ''&'', jen_Id ''arguments'']]] # rest)]]],
            check])"
    using tl lb unfolding il c append_Cons append_Nil by blast
  have wp: "\<exists>info. processOperation ''/books/{id}'' ''PATCH'' (Some patchBook) Map.empty
               ''PatchBook'' = Some info \<and>
      \<not> HasRequestBody info \<and> ParameterType info = ''PatchBookParams''"
    using tp pb unfolding ip append_Cons append_Nil by blast
  from a ab wa l lb wl p pb wp show ?thesis by blast
qed

section \<open>C3: fallback texts\<close>

text \<open>
  C3. For an operation definition with an identifier, the record stored for it has the
  summary \<^verbatim>\<open><METHOD> <path>\<close> (the method and the path passed to
  \<^verbatim>\<open>processOperation\<close>, one space between them) when the definition's summary is
  empty, and a description equal to the stored summary (the fallback one, if it was
  taken) when the definition's description is empty.
\<close>

theorem fallback_text:
  assumes "OperationID opn \<noteq> ''''"
  shows "\<exists>info. processOperation path method (Some opn) operations (OperationID opn) = Some info \<and>
           (Operation.Summary opn = '''' \<longrightarrow> Summary info = method @ '' '' @ path) \<and>
           (Operation.Description opn = '''' \<longrightarrow> Description info = Summary info)"
proof -
  have "processOperation path method (Some opn) operations (OperationID opn) =
        Some (operationInfo path method opn)"
    using assms by (simp add: processOperation_def)
  then show ?thesis
    by (simp add: Summary_operationInfo Description_operationInfo)
qed

text \<open>\<^verbatim>\<open>ListBooks\<close> has neither summary nor description and sits under GET of \<^verbatim>\<open>/books\<close>.\<close>

theorem fallback_text_witness:
  "OperationID listBooks \<noteq> '''' \<and> Operation.Summary listBooks = '''' \<and>
   Operation.Description listBooks = '''' \<and>
   (\<exists>info. processOperation ''/books'' ''GET'' (Some listBooks) Map.empty ''ListBooks'' = Some info \<and>
      Summary info = ''GET /books'' \<and> Description info = ''GET /books'')"
proof -
  have l: "OperationID listBooks \<noteq> ''''"
    by (simp add: listBooks_def)
  have e: "Operation.Summary listBooks = ''''" "Operation.Description listBooks = ''''"
     "OperationID listBooks = ''ListBooks''"
    by (simp_all add: listBooks_def)
  from fallback_text [OF l, of "''/books''" "''GET''" Map.empty]
  show ?thesis
    using l by (auto simp: e)
qed

section \<open>C4: one registration per identifier\<close>

text \<open>
  C4. Let the table be visited in any order the runtime may choose. If the run stops
  with an error, no operation of the description has an identifier. Otherwise the
  output's \<^verbatim>\<open>main\<close> holds, for every identifier, exactly one registration statement
  \<^verbatim>\<open>err = server.RegisterTool("<id>", ...)\<close> when the identifier is not empty and stands
  on an operation in one of the seven method slots of some path (also when it stands on
  several), and none otherwise; so an operation without identifier gets no
  registration.
\<close>


theorem registration_completeness:
  assumes "rangeOrder keys (extractOperations paths)"
  shows "case generateMCPServer cli (Inr paths) keys of
           Failed e \<Rightarrow> \<forall>d \<in> set (processed paths). idOf d = ''''
         | Saved out f \<Rightarrow>
             \<forall>name. registrations name f =
               (if name \<noteq> '''' \<and> name \<in> idOf ` set (processed paths) then 1 else 0)"
proof (cases "dom (extractOperations paths) = {}")
  case True
  then have "generateMCPServer cli (Inr paths) keys =
      Failed (GenerateError ''no valid operations found in the OpenAPI spec'')"
    by (rule generateMCPServer_empty)
  moreover from True have "\<forall>d \<in> set (processed paths). idOf d = ''''"
    by (simp only: processed_no_usable)
  ultimately show ?thesis by simp
next
  case False
  then have g: "generateMCPServer cli (Inr paths) keys =
      Saved (Output cli) (synthesize cli (rangeValues (extractOperations paths) keys))"
    by (rule generateMCPServer_nonempty)
  have "registrations name (synthesize cli (rangeValues (extractOperations paths) keys)) =
        (if name \<noteq> '''' \<and> name \<in> idOf ` set (processed paths) then 1 else 0)" for name
    unfolding registrations_synthesize
      count_rangeValues [OF assms tableInv_extractOperations] dom_extractOperations
    by simp
  with g show ?thesis by simp
qed

text \<open>
  A description with five operations: \<^verbatim>\<open>ListBooks\<close>, \<^verbatim>\<open>AddBook\<close>, one without
  identifier, and \<^verbatim>\<open>Book\<close> twice.
\<close>


theorem registration_completeness_witness:
  "rangeOrder [''Book'', ''AddBook'', ''ListBooks''] (extractOperations libraryPaths) \<and>
   (\<exists>f. generateMCPServer defaultCLI (Inr libraryPaths) [''Book'', ''AddBook'', ''ListBooks''] =
          Saved ''./generated/main.go'' f \<and>
        registrations ''AddBook'' f = 1 \<and> registrations ''Book'' f = 1 \<and>
        registrations '''' f = 0 \<and> registrations ''TraceBooks'' f = 0)"
proof -
  have r: "rangeOrder [''Book'', ''AddBook'', ''ListBooks''] (extractOperations libraryPaths)"
    unfolding rangeOrder_def dom_extractOperations_libraryPaths by auto
  have n: "dom (extractOperations libraryPaths) \<noteq> {}"
    unfolding dom_extractOperations_libraryPaths by simp
  have o: "Output defaultCLI = ''./generated/main.go''"
    by (simp add: defaultCLI_def)
  have ids: "idOf ` set (processed libraryPaths) = {''ListBooks'', ''AddBook'', '''', ''Book''}"
    by (auto simp: processed_libraryPaths idOf_examples)
  let ?f = "synthesize defaultCLI
     (rangeValues (extractOperations libraryPaths) [''Book'', ''AddBook'', ''ListBooks''])"
  from registration_completeness [OF r, of defaultCLI]
  have a: "\<forall>name. registrations name ?f =
      (if name \<noteq> '''' \<and> name \<in> idOf ` set (processed libraryPaths) then 1 else 0)"
    unfolding generateMCPServer_nonempty [OF n] by simp
  have "registrations ''AddBook'' ?f = 1" "registrations ''Book'' ?f = 1"
    "registrations '''' ?f = 0" "registrations ''TraceBooks'' ?f = 0"
    unfolding a [rule_format] ids by simp_all
  then show ?thesis
    using r unfolding generateMCPServer_nonempty [OF n] o by blast
qed

section \<open>C5: a description without usable operation is rejected\<close>

text \<open>
  C5. The operation table is empty after all paths have been processed exactly when no
  method slot of any path holds an operation with an identifier; and then the run
  returns the error \<^verbatim>\<open>no valid operations found in the OpenAPI spec\<close> without
  having reached \<^verbatim>\<open>Save\<close>, so no file is written, whatever the configuration is.
\<close>

theorem empty_input_rejection:
  "(dom (extractOperations paths) = {} \<longleftrightarrow> (\<forall>d \<in> set (processed paths). idOf d = '''')) \<and>
   (dom (extractOperations paths) = {} \<longrightarrow>
      generateMCPServer cli (Inr paths) keys =
        Failed (GenerateError ''no valid operations found in the OpenAPI spec'') \<and>
      failedBeforeSave (generateMCPServer cli (Inr paths) keys))"
proof -
  have "generateMCPServer cli (Inr paths) keys =
        Failed (GenerateError ''no valid operations found in the OpenAPI spec'')"
    if "dom (extractOperations paths) = {}"
    using that unfolding generateMCPServer_def by (simp add: Let_def)
  then show ?thesis
    using processed_no_usable [of paths] by (auto simp: failedBeforeSave_def)
qed

lemma processed_healthPaths: "processed healthPaths = [(''/health'', ''GET'', anonymous)]"
  by (simp add: healthPaths_def methodSlots_def noOperations_def)

text \<open>
  A description with one path whose only operation has no identifier, and one path
  without path item.
\<close>

theorem empty_input_rejection_witness:
  "processed healthPaths = [(''/health'', ''GET'', anonymous)] \<and>
   idOf (''/health'', ''GET'', anonymous) = '''' \<and>
   dom (extractOperations healthPaths) = {} \<and>
   generateMCPServer defaultCLI (Inr healthPaths) [] =
     Failed (GenerateError ''no valid operations found in the OpenAPI spec'') \<and>
   failedBeforeSave (generateMCPServer defaultCLI (Inr healthPaths) [])"
proof -
  have i: "idOf (''/health'', ''GET'', anonymous) = ''''"
    by (simp add: idOf_def anonymous_def)
  have h: "\<forall>d \<in> set (processed healthPaths). idOf d = ''''"
    by (simp add: processed_healthPaths i)
  from empty_input_rejection [of healthPaths defaultCLI "[]"] h
  have "dom (extractOperations healthPaths) = {}"
    and "generateMCPServer defaultCLI (Inr healthPaths) [] =
        Failed (GenerateError ''no valid operations found in the OpenAPI spec'')"
    and "failedBeforeSave (generateMCPServer defaultCLI (Inr healthPaths) [])"
    by blast+
  then show ?thesis
    by (simp add: processed_healthPaths i)
qed

section \<open>C6: a repeated identifier overwrites\<close>

text \<open>
  C6. When two operation definitions of a description (under any methods and paths)
  carry the same non-empty identifier, extraction still produces a table, the run does
  not fail before \<^verbatim>\<open>Save\<close>, and the table holds under that identifier one record:
  the one derived from the last definition with that identifier in the order of
  processing.
\<close>

theorem last_write_wins:
  assumes "d1 \<in> set (processed paths)" and "d2 \<in> set (processed paths)"
      and "idOf d1 = name" and "idOf d2 = name" and "name \<noteq> ''''"
  shows "definitionsOf name paths \<noteq> [] \<and>
         extractOperations paths name = Some (infoOf (last (definitionsOf name paths))) \<and>
         \<not> failedBeforeSave (generateMCPServer cli (Inr paths) keys)"
proof -
  have ne: "definitionsOf name paths \<noteq> []"
    using assms(1,3) by (auto simp: definitionsOf_def filter_empty_conv)
  then have t: "extractOperations paths name = Some (infoOf (last (definitionsOf name paths)))"
    using assms(5) by (simp add: extractOperations_apply)
  then have "dom (extractOperations paths) \<noteq> {}"
    by auto
  then have "\<not> failedBeforeSave (generateMCPServer cli (Inr paths) keys)"
    by (simp add: generateMCPServer_def failedBeforeSave_def)
  with ne t show ?thesis by simp
qed

lemma processed_bookPaths:
  "processed bookPaths = [(''/books/{id}'', ''GET'', getBook), (''/books/{id}'', ''PUT'', putBook)]"
  by (simp add: bookPaths_def methodSlots_def noOperations_def)

lemma definitionsOf_bookPaths:
  "definitionsOf ''Book'' bookPaths =
     [(''/books/{id}'', ''GET'', getBook), (''/books/{id}'', ''PUT'', putBook)]"
  by (simp add: definitionsOf_def processed_bookPaths idOf_def getBook_def putBook_def)

text \<open>
  \<^verbatim>\<open>/books/{id}\<close> defines \<^verbatim>\<open>Book\<close> under GET and again under PUT; PUT is processed
  later, and its record is the one kept.
\<close>

theorem last_write_wins_witness:
  "extractOperations bookPaths ''Book'' =
     Some \<lparr>ID = ''Book'', Summary = ''Replace a book'', Description = ''Replace a book'',
           ParameterType = ''BookJSONRequestBody'', HasRequestBody = True\<rparr> \<and>
   \<not> failedBeforeSave (generateMCPServer defaultCLI (Inr bookPaths) [''Book''])"
proof -
  have m1: "(''/books/{id}'', ''GET'', getBook) \<in> set (processed bookPaths)"
   and m2: "(''/books/{id}'', ''PUT'', putBook) \<in> set (processed bookPaths)"
    by (simp_all add: processed_bookPaths)
  have i1: "idOf (''/books/{id}'', ''GET'', getBook) = ''Book''"
   and i2: "idOf (''/books/{id}'', ''PUT'', putBook) = ''Book''"
    by (simp_all add: idOf_def getBook_def putBook_def)
  have n: "''Book'' \<noteq> ''''" by simp
  have v: "infoOf (''/books/{id}'', ''PUT'', putBook) =
      \<lparr>ID = ''Book'', Summary = ''Replace a book'', Description = ''Replace a book'',
       ParameterType = ''BookJSONRequestBody'', HasRequestBody = True\<rparr>"
    by (simp add: infoOf_def operationInfo_def Let_def putBook_def hasRequestBody_def)
  from last_write_wins [OF m1 m2 i1 i2 n, of defaultCLI "[''Book'']"]
  show ?thesis
    by (simp add: definitionsOf_bookPaths v)
qed

section \<open>C7: what makes the run fail before a file is written\<close>

text \<open>
  A configuration whose client package, client import, server URL and the two
  environment variable names are all missing (empty), with the books example: the run
  does not fail; it hands a complete file to \<^verbatim>\<open>Save\<close>.
\<close>


theorem missing_configuration_counterexample:
  "Output missingCLI = ''./generated/main.go'' \<and> Package missingCLI = ''main'' \<and>
   ClientPackage missingCLI = '''' \<and> ClientImport missingCLI = '''' \<and>
   ServerURL missingCLI = '''' \<and> UsernameEnv missingCLI = '''' \<and> PasswordEnv missingCLI = '''' \<and>
   rangeOrder [''AddBook'', ''ListBooks''] (extractOperations books) \<and>
   generateMCPServer missingCLI (Inr books) [''AddBook'', ''ListBooks''] =
     Saved ''./generated/main.go'' (synthesize missingCLI [addBookInfo, listBooksInfo]) \<and>
   \<not> failedBeforeSave (generateMCPServer missingCLI (Inr books) [''AddBook'', ''ListBooks''])"
  unfolding generateMCPServer_nonempty [OF dom_books_nonempty] rangeValues_books
  by (simp add: rangeOrder_books failedBeforeSave_def missingCLI_def defaultCLI_def)

text \<open>
  C7 (amended). \<^verbatim>\<open>generateMCPServer\<close> returns an error of its own, before it calls
  \<^verbatim>\<open>Save\<close>, exactly when loading the description failed or the operation table is
  empty. It checks neither the configuration nor colliding symbols: whatever the
  configuration holds, with a non-empty table it calls \<^verbatim>\<open>Save\<close> at the configured
  path with a file of the configured package whose \<^verbatim>\<open>main\<close> holds the leading
  statements, the registration of every record of the table in the order of the visit,
  and the trailing statements. What \<^verbatim>\<open>Save\<close> then does is the library's and is not
  stated here. Identifiers are used verbatim in the generated symbols, so a collision
  cannot arise within a table: two entries under different keys have different call
  symbols (\<^verbatim>\<open><id>WithResponse\<close>) and different parameter type names.
\<close>

theorem failures_before_save:
  "(failedBeforeSave (generateMCPServer cli loaded keys) \<longleftrightarrow>
      (case loaded of Inl e \<Rightarrow> True | Inr paths \<Rightarrow> dom (extractOperations paths) = {})) \<and>
   (\<forall>paths. dom (extractOperations paths) \<noteq> {} \<and> rangeOrder keys (extractOperations paths) \<longrightarrow>
      (\<exists>f ops.
         generateMCPServer cli (Inr paths) keys = Saved (Output cli) f \<and>
         PackageName f = Package cli \<and>
         Decls f =
           [[jen_Func, jen_Id ''main'', jen_Params [], jen_Block (mainStatements f)]] \<and>
         mainStatements f =
           mainBodyStart cli @ concat (map (registerTool cli) ops) @ mainBodyEnd \<and>
         map (extractOperations paths) keys = map Some ops \<and>
         registeredNames f = keys)) \<and>
   (\<forall>paths k k' op op'.
      extractOperations paths k = Some op \<and> extractOperations paths k' = Some op' \<and> k \<noteq> k' \<longrightarrow>
      ID op @ ''WithResponse'' \<noteq> ID op' @ ''WithResponse'' \<and>
      ParameterType op \<noteq> ParameterType op')"
proof -
  have a: "failedBeforeSave (generateMCPServer cli loaded keys) \<longleftrightarrow>
      (case loaded of Inl e \<Rightarrow> True | Inr paths \<Rightarrow> dom (extractOperations paths) = {})"
  proof (cases loaded)
    case (Inl e)
    then show ?thesis by (simp add: generateMCPServer_def failedBeforeSave_def)
  next
    case (Inr paths)
    show ?thesis
    proof (cases "dom (extractOperations paths) = {}")
      case True
      with Inr show ?thesis
        by (simp only: generateMCPServer_empty [OF True] failedBeforeSave_def sum.case
            outcome.case simp_thms)
    next
      case False
      with Inr show ?thesis
        by (simp only: generateMCPServer_nonempty [OF False] failedBeforeSave_def sum.case
            outcome.case simp_thms)
    qed
  qed
  have c: "\<exists>f ops.
         generateMCPServer cli (Inr paths) keys = Saved (Output cli) f \<and>
         PackageName f = Package cli \<and>
         Decls f =
           [[jen_Func, jen_Id ''main'', jen_Params [], jen_Block (mainStatements f)]] \<and>
         mainStatements f =
           mainBodyStart cli @ concat (map (registerTool cli) ops) @ mainBodyEnd \<and>
         map (extractOperations paths) keys = map Some ops \<and>
         registeredNames f = keys"
    if ne: "dom (extractOperations paths) \<noteq> {}"
      and ro: "rangeOrder keys (extractOperations paths)" for paths
  proof -
    let ?ops = "rangeValues (extractOperations paths) keys"
    let ?f = "synthesize cli ?ops"
    have g: "generateMCPServer cli (Inr paths) keys = Saved (Output cli) ?f"
      by (rule generateMCPServer_nonempty [OF ne])
    have s: "map (extractOperations paths) keys = map Some ?ops"
      using ro by (intro rangeValues_Some) (simp add: rangeOrder_def)
    have n: "registeredNames ?f = keys"
      unfolding registeredNames_synthesize
      using ro tableInv_extractOperations by (rule rangeValues_ids)
    show ?thesis
      apply (rule exI [of _ ?f], rule exI [of _ ?ops])
      apply (intro conjI g s n synthesize_parts)
      done
  qed
  have b: "ID op @ ''WithResponse'' \<noteq> ID op' @ ''WithResponse'' \<and>
           ParameterType op \<noteq> ParameterType op'"
    if "extractOperations paths k = Some op" "extractOperations paths k' = Some op'" "k \<noteq> k'"
    for paths k k' op op'
  proof -
    from that(1,2) have e: "entryOk k op" "entryOk k' op'"
      using tableInv_extractOperations [of paths] unfolding tableInv_def by blast+
    then have "ID op = k" "ID op' = k'"
      by (simp_all add: entryOk_def)
    with that(3) have "ID op @ ''WithResponse'' \<noteq> ID op' @ ''WithResponse''"
      by simp
    moreover have "ParameterType op \<noteq> ParameterType op'"
      using parameterType_inject [OF e] that(3) by blast
    ultimately show ?thesis by simp
  qed
  from a b c show ?thesis by blast
qed

text \<open>The two entries of the books example, and the run with the empty configuration.\<close>

theorem failures_before_save_witness:
  "extractOperations books ''AddBook'' = Some addBookInfo \<and>
   extractOperations books ''ListBooks'' = Some listBooksInfo \<and>
   ''AddBook'' \<noteq> ''ListBooks'' \<and>
   ID addBookInfo @ ''WithResponse'' \<noteq> ID listBooksInfo @ ''WithResponse'' \<and>
   ParameterType addBookInfo \<noteq> ParameterType listBooksInfo \<and>
   dom (extractOperations books) \<noteq> {} \<and>
   rangeOrder [''ListBooks'', ''AddBook''] (extractOperations books) \<and>
   \<not> failedBeforeSave (generateMCPServer missingCLI (Inr books) [''ListBooks'', ''AddBook'']) \<and>
   (\<exists>f. generateMCPServer missingCLI (Inr books) [''ListBooks'', ''AddBook''] =
          Saved ''./generated/main.go'' f \<and>
        PackageName f = ''main'' \<and>
        mainStatements f =
          mainBodyStart missingCLI @
          concat (map (registerTool missingCLI) [listBooksInfo, addBookInfo]) @ mainBodyEnd \<and>
        registeredNames f = [''ListBooks'', ''AddBook''])"
proof -
  have n: "''AddBook'' \<noteq> ''ListBooks''" by simp
  note t = failures_before_save [of missingCLI "Inr books" "[''ListBooks'', ''AddBook'']"]
  have x: "extractOperations books ''AddBook'' = Some addBookInfo \<and>
           extractOperations books ''ListBooks'' = Some listBooksInfo \<and> ''AddBook'' \<noteq> ''ListBooks''"
    using extractOperations_books_AddBook extractOperations_books_ListBooks n by blast
  from t x have s: "ID addBookInfo @ ''WithResponse'' \<noteq> ID listBooksInfo @ ''WithResponse'' \<and>
      ParameterType addBookInfo \<noteq> ParameterType listBooksInfo"
    by blast
  from t have nf:
    "\<not> failedBeforeSave (generateMCPServer missingCLI (Inr books) [''ListBooks'', ''AddBook''])"
    using dom_books_nonempty by simp
  have o: "Output missingCLI = ''./generated/main.go''" "Package missingCLI = ''main''"
    by (simp_all add: missingCLI_def defaultCLI_def)
  from t dom_books_nonempty rangeOrder_books(2)
  obtain f ops where
    g: "generateMCPServer missingCLI (Inr books) [''ListBooks'', ''AddBook''] =
          Saved ''./generated/main.go'' f"
    and pk: "PackageName f = ''main''"
    and b: "mainStatements f =
          mainBodyStart missingCLI @ concat (map (registerTool missingCLI) ops) @ mainBodyEnd"
    and m: "map (extractOperations books) [''ListBooks'', ''AddBook''] = map Some ops"
    and k: "registeredNames f = [''ListBooks'', ''AddBook'']"
    unfolding o by blast
  from m have "map Some ops = map Some [listBooksInfo, addBookInfo]"
    by (simp add: extractOperations_books_AddBook extractOperations_books_ListBooks)
  then have v: "ops = [listBooksInfo, addBookInfo]"
    by (simp only: inj_map_eq_map [OF inj_Some])
  from x s nf g pk b [unfolded v] k dom_books_nonempty rangeOrder_books(2)
  show ?thesis by blast
qed

section \<open>C8: the seven method slots\<close>

text \<open>
  C8. For every path entry the extractor inspects the seven slots GET, POST, PUT, DELETE,
  PATCH, HEAD and OPTIONS and nothing else of the path item: whatever operations stand
  under the other methods of a path item (CONNECT and TRACE), the extracted table is the
  same; every record of the table comes from an operation in one of the seven slots of
  some path; and every operation with an identifier in one of the seven slots has an
  entry in the table.
\<close>


theorem seven_method_slots:
  "map fst (methodSlots item0) =
     [''GET'', ''POST'', ''PUT'', ''DELETE'', ''PATCH'', ''HEAD'', ''OPTIONS''] \<and>
   extractOperations
     (map (\<lambda>(path, item).
             (path, map_option (\<lambda>i. i\<lparr>Connect := c path, Trace := t path\<rparr>) item)) paths)
     = extractOperations paths \<and>
   (\<forall>k info. extractOperations paths k = Some info \<longrightarrow>
      (\<exists>path item method opn.
         (path, Some item) \<in> set paths \<and> (method, Some opn) \<in> set (methodSlots item) \<and>
         OperationID opn = k \<and> info = operationInfo path method opn)) \<and>
   (\<forall>path item method opn.
      (path, Some item) \<in> set paths \<and> (method, Some opn) \<in> set (methodSlots item) \<and>
      OperationID opn \<noteq> '''' \<longrightarrow> OperationID opn \<in> dom (extractOperations paths))"
proof -
  have a: "map fst (methodSlots item0) =
     [''GET'', ''POST'', ''PUT'', ''DELETE'', ''PATCH'', ''HEAD'', ''OPTIONS'']"
    by (simp add: methodSlots_def)
  have b: "extractOperations
     (map (\<lambda>(path, item).
             (path, map_option (\<lambda>i. i\<lparr>Connect := c path, Trace := t path\<rparr>) item)) paths)
     = extractOperations paths"
    by (rule extractOperations_processed) (rule processed_other)
  show ?thesis
    using a b extractOperations_origin extractOperations_contributes by blast
qed

text \<open>
  The books example with an operation \<^verbatim>\<open>TraceBooks\<close> added under CONNECT and TRACE:
  the table is that of the books example, without an entry for \<^verbatim>\<open>TraceBooks\<close>.
\<close>


theorem seven_method_slots_witness:
  "extractOperations
     [(''/books'', Some (booksItem\<lparr>Connect := Some traceBooks, Trace := Some traceBooks\<rparr>))]
     = extractOperations books \<and>
   extractOperations
     [(''/books'', Some (booksItem\<lparr>Connect := Some traceBooks, Trace := Some traceBooks\<rparr>))]
     ''TraceBooks'' = None \<and>
   ''ListBooks'' \<in> dom (extractOperations books)"
proof -
  have e: "extractOperations
     [(''/books'', Some (booksItem\<lparr>Connect := Some traceBooks, Trace := Some traceBooks\<rparr>))]
     = extractOperations books"
    using seven_method_slots [of noOperations "\<lambda>p. Some traceBooks" "\<lambda>p. Some traceBooks" books]
    by (simp add: books_def)
  have n: "extractOperations books ''TraceBooks'' = None"
    by (simp add: extractOperations_apply definitionsOf_def processed_books idOf_def
        listBooks_def addBook_def)
  have m: "(''/books'', Some booksItem) \<in> set books"
    "(''GET'', Some listBooks) \<in> set (methodSlots booksItem)"
    "OperationID listBooks \<noteq> ''''"
    by (simp_all add: books_def methodSlots_def booksItem_def listBooks_def)
  have l: "OperationID listBooks = ''ListBooks''"
    by (simp add: listBooks_def)
  from seven_method_slots [of noOperations "\<lambda>p. None" "\<lambda>p. None" books] m
  have "OperationID listBooks \<in> dom (extractOperations books)"
    by blast
  with e n l show ?thesis by simp
qed

section \<open>C9: what a generated handler does\<close>

text \<open>
  The handler of \<^verbatim>\<open>AddBook\<close> with a client that answers \<^verbatim>\<open>201 Created\<close>, a
  success status of HTTP: the handler returns the error
  \<^verbatim>\<open>error on AddBook: 201 Created\<close>, not the payload. The test the synthesizer emits is
  \<^verbatim>\<open>resp.StatusCode() != 200\<close>.
\<close>


theorem created_status_counterexample:
  "exampleClient ''AddBookWithResponse'' (ByValue ()) = Inr created \<and>
   StatusCode created = 201 \<and>
   callHandler exampleClient (handlerBody addBookInfo) () =
     Some [GoNil, GoError ''error on AddBook: 201 Created''] \<and>
   callHandler exampleClient (handlerBody addBookInfo) () \<noteq>
     Some [GoToolResponse [GoTextContent (Body created)], GoNil]"
proof -
  have p: "CHR ''%'' \<notin> set (ID addBookInfo)"
    by (simp add: addBookInfo_def)
  have c: "exampleClient ''AddBookWithResponse'' (ByValue ()) = Inr created"
    by (simp add: exampleClient_def)
  have "callHandler exampleClient (handlerBody addBookInfo) () =
     Some [GoNil, GoError ''error on AddBook: 201 Created'']"
    unfolding callHandler_handlerBody [OF p]
    by (simp add: addBookInfo_def c created_def)
  with c show ?thesis
    by (simp add: created_def)
qed

text \<open>
  C9 (amended). For every operation whose identifier has no percent sign, the
  synthesized handler body calls \<^verbatim>\<open>restClient.<id>WithResponse\<close> with its parameter
  (by value when the operation has a request body, by reference otherwise) and then:
  when the call returns an error, it returns \<^verbatim>\<open>nil\<close> and the error
  \<^verbatim>\<open>error calling <id>: <error text>\<close>; when the status code of the response is not
  200, it returns \<^verbatim>\<open>nil\<close> and the error \<^verbatim>\<open>error on <id>: <status text>\<close>; when the
  status code is 200, it returns the tool response whose one text content is the body of
  the response, and no error.
\<close>


theorem handler_behaviour:
  assumes "CHR ''%'' \<notin> set (ID op)"
  shows "callHandler client (handlerBody op) a =
     (case client (ID op @ ''WithResponse'')
             (if HasRequestBody op then ByValue a else ByReference a) of
        Inl e \<Rightarrow> Some [GoNil, GoError (''error calling '' @ ID op @ '': '' @ e)]
      | Inr r \<Rightarrow>
          if StatusCode r \<noteq> 200
          then Some [GoNil, GoError (''error on '' @ ID op @ '': '' @ Status r)]
          else Some [GoToolResponse [GoTextContent (Body r)], GoNil])"
  unfolding callHandler_handlerBody [OF assms] by (simp split: sum.splits)

text \<open>
  \<^verbatim>\<open>ListBooks\<close> answered with 200, \<^verbatim>\<open>AddBook\<close> answered with 201, and \<^verbatim>\<open>Book\<close>
  whose call fails.
\<close>


theorem handler_behaviour_witness:
  "CHR ''%'' \<notin> set (ID listBooksInfo) \<and>
   callHandler exampleClient (handlerBody listBooksInfo) () =
     Some [GoToolResponse [GoTextContent ''[]''], GoNil] \<and>
   CHR ''%'' \<notin> set (ID addBookInfo) \<and>
   callHandler exampleClient (handlerBody addBookInfo) () =
     Some [GoNil, GoError ''error on AddBook: 201 Created''] \<and>
   callHandler exampleClient
     (handlerBody (operationInfo ''/books/{id}'' ''GET'' getBook)) () =
     Some [GoNil, GoError ''error calling Book: connection refused'']"
proof -
  have l: "CHR ''%'' \<notin> set (ID listBooksInfo)"
    and a: "CHR ''%'' \<notin> set (ID addBookInfo)"
    and b: "CHR ''%'' \<notin> set (ID (operationInfo ''/books/{id}'' ''GET'' getBook))"
    by (simp_all add: listBooksInfo_def addBookInfo_def ID_operationInfo getBook_def)
  have "callHandler exampleClient (handlerBody listBooksInfo) () =
     Some [GoToolResponse [GoTextContent ''[]''], GoNil]"
    using handler_behaviour [OF l, of exampleClient "()"]
    by (simp add: listBooksInfo_def exampleClient_def allBooks_def)
  moreover have "callHandler exampleClient (handlerBody addBookInfo) () =
     Some [GoNil, GoError ''error on AddBook: 201 Created'']"
    using handler_behaviour [OF a, of exampleClient "()"]
    by (simp add: addBookInfo_def exampleClient_def created_def)
  moreover have "callHandler exampleClient
     (handlerBody (operationInfo ''/books/{id}'' ''GET'' getBook)) () =
     Some [GoNil, GoError ''error calling Book: connection refused'']"
    using handler_behaviour [OF b, of exampleClient "()"]
    by (simp add: ID_operationInfo HasRequestBody_operationInfo hasRequestBody_def
        getBook_def exampleClient_def)
  ultimately show ?thesis
    using l a by simp
qed

section \<open>C10: the invariant of the operation table\<close>

text \<open>
  C10. Every record in the table has a non-empty \<open>ID\<close> equal to its key, a non-empty
  \<open>Summary\<close>, a non-empty \<open>Description\<close>, and a \<open>ParameterType\<close> equal to the
  \<open>ID\<close> followed by \<^verbatim>\<open>JSONRequestBody\<close> when \<open>HasRequestBody\<close> is true and by
  \<^verbatim>\<open>Params\<close> when it is false. The empty table has the property, every call of
  \<^verbatim>\<open>processOperation\<close> keeps it, and so the extracted table has it.
\<close>

theorem table_invariant:
  "tableInv Map.empty \<and>
   (tableInv operations \<longrightarrow> tableInv (processOperation path method operation operations)) \<and>
   tableInv (extractOperations paths)"
proof (intro conjI impI)
  show "tableInv Map.empty"
    by (rule tableInv_empty)
next
  assume "tableInv operations"
  then show "tableInv (processOperation path method operation operations)"
    by (rule tableInv_processOperation)
next
  show "tableInv (extractOperations paths)"
    by (rule tableInv_extractOperations)
qed

text \<open>One step from the empty table, and the record it stores.\<close>

theorem table_invariant_witness:
  "tableInv Map.empty \<and>
   tableInv (processOperation ''/books'' ''POST'' (Some addBook) Map.empty) \<and>
   processOperation ''/books'' ''POST'' (Some addBook) Map.empty ''AddBook'' =
     Some \<lparr>ID = ''AddBook'', Summary = ''POST /books'', Description = ''POST /books'',
           ParameterType = ''AddBookJSONRequestBody'', HasRequestBody = True\<rparr> \<and>
   entryOk ''AddBook''
     \<lparr>ID = ''AddBook'', Summary = ''POST /books'', Description = ''POST /books'',
      ParameterType = ''AddBookJSONRequestBody'', HasRequestBody = True\<rparr>"
proof -
  have e: "processOperation ''/books'' ''POST'' (Some addBook) Map.empty ''AddBook'' =
     Some \<lparr>ID = ''AddBook'', Summary = ''POST /books'', Description = ''POST /books'',
           ParameterType = ''AddBookJSONRequestBody'', HasRequestBody = True\<rparr>"
    by (simp add: processOperation_def operationInfo_def Let_def addBook_def hasRequestBody_def)
  from table_invariant [of Map.empty "''/books''" "''POST''" "Some addBook" "[]"]
  have t: "tableInv (processOperation ''/books'' ''POST'' (Some addBook) Map.empty)"
    by simp
  then have "entryOk ''AddBook''
     \<lparr>ID = ''AddBook'', Summary = ''POST /books'', Description = ''POST /books'',
      ParameterType = ''AddBookJSONRequestBody'', HasRequestBody = True\<rparr>"
    using e unfolding tableInv_def by blast
  with t e show ?thesis
    by (simp add: tableInv_empty)
qed

end
